theory Spec2Isabelle
  imports Main "HOL-Library.Sublist" "HOL-Library.Char_ord" "HOL-Library.List_Lexorder"
begin

section \<open>The interaction service of the photo sharing backend\<close>

text \<open>
  This theory embeds \<^verbatim>\<open>backend/shared/interaction_service.py\<close> and the parts of
  \<^verbatim>\<open>backend/shared/models.py\<close> it calls (the \<^verbatim>\<open>User\<close>, \<^verbatim>\<open>Post\<close> and
  \<^verbatim>\<open>Interaction\<close> model classes) and states the service's properties as theorems.

  Python strings are lists of characters; the order on them (\<^verbatim>\<open>HOL-Library.List_Lexorder\<close>
  over \<^verbatim>\<open>HOL-Library.Char_ord\<close>) is the lexicographic order by character code, which is
  how Python compares \<^verbatim>\<open>str\<close> values and how DynamoDB orders string sort keys.  A
  \<^typ>\<open>char\<close> has a code below 256.
\<close>

subsection \<open>Records of the three tables\<close>

text \<open>
  The attributes each model class writes with \<^verbatim>\<open>put_item\<close> and reads back.  Optional
  attributes (\<^verbatim>\<open>item.get(...)\<close> in the source) are options.
\<close>

record user =
  u_user_id :: string
  u_username :: string
  u_email :: string
  u_password_hash :: string
  u_profile_image :: "string option"
  u_bio :: "string option"
  u_created_at :: string

record post =
  p_post_id :: string
  p_user_id :: string
  p_image_key :: string
  p_caption :: "string option"
  p_likes_count :: int
  p_comments_count :: int
  p_created_at :: string

record interaction =
  i_post_id :: string
  i_interaction_id :: string
  i_user_id :: string
  i_interaction_type :: string
  i_content :: "string option"
  i_created_at :: string

subsection \<open>Errors\<close>

text \<open>
  The exceptions the service can end with.  The localized message of a
  \<^verbatim>\<open>ValidationError\<close> or \<^verbatim>\<open>NotFoundError\<close> is kept as a tag.  \<open>StoreFailure\<close> stands
  for an exception raised by a call to the store (a botocore \<^verbatim>\<open>ClientError\<close>, or the
  \<^verbatim>\<open>DatabaseError\<close> that \<^verbatim>\<open>monitor_database_operation\<close> may turn it into);
  \<open>ParamValidationError\<close> is what boto3 raises for a query whose \<^verbatim>\<open>Limit\<close> is below 1.
\<close>

datatype reason =
    CommentContentRequired
  | CommentTooLong
  | PostNotFound
  | UserNotFound
  | CommentNotFound
  | OwnCommentsOnly

datatype error =
    ValidationError reason
  | NotFoundError reason
  | StoreFailure
  | ParamValidationError

datatype message = LikeAdded | LikeRemoved | CommentPosted | CommentDeleted

subsection \<open>The store and operations on it\<close>

text \<open>
  The store holds the three tables, each a list of items; the primary keys are
  \<^verbatim>\<open>user_id\<close>, \<^verbatim>\<open>post_id\<close>, and \<^verbatim>\<open>post_id\<close> with \<^verbatim>\<open>interaction_id\<close>.  Calls follow one
  another and a read sees every earlier write.
  \<open>faults\<close> is the environment's say on the coming store calls: its head tells whether
  the next call raises, and it is used up call by call; the empty list means that no
  further call fails.

  An operation takes the store and returns its outcome, \<open>Inl\<close> an exception and \<open>Inr\<close>
  a value, together with the store it leaves: an exception does not undo the writes
  made before it.
\<close>

record store =
  users :: "user list"
  posts :: "post list"
  interactions :: "interaction list"
  faults :: "bool list"

type_synonym 'a operation = "store \<Rightarrow> (error + 'a) \<times> store"

definition op_return :: "'a \<Rightarrow> 'a operation" where
  "op_return x s = (Inr x, s)"

definition op_raise :: "error \<Rightarrow> 'a operation" where
  "op_raise e s = (Inl e, s)"

definition op_bind :: "'a operation \<Rightarrow> ('a \<Rightarrow> 'b operation) \<Rightarrow> 'b operation" where
  "op_bind m f s = (case m s of (Inl e, s') \<Rightarrow> (Inl e, s') | (Inr x, s') \<Rightarrow> f x s')"

text \<open>\<^verbatim>\<open>try: ... except Exception as e: ...\<close> with a handler that returns a value.\<close>

definition op_catch :: "'a operation \<Rightarrow> (error \<Rightarrow> 'a operation) \<Rightarrow> 'a operation" where
  "op_catch m h s = (case m s of (Inl e, s') \<Rightarrow> h e s' | (Inr x, s') \<Rightarrow> (Inr x, s'))"

text \<open>
  One call to a table (\<^verbatim>\<open>db_connection.get_table(...)\<close> followed by the table method):
  it raises when the environment says so.
\<close>

definition store_call :: "unit operation" where
  "store_call s =
     (case faults s of
        [] \<Rightarrow> (Inr (), s)
      | f # fs \<Rightarrow> ((if f then Inl StoreFailure else Inr ()), s\<lparr>faults := fs\<rparr>))"

text \<open>The item a table holds under a key, if any.\<close>

definition stored_user :: "store \<Rightarrow> string \<Rightarrow> user option" where
  "stored_user s user_id = find (\<lambda>u. u_user_id u = user_id) (users s)"

definition stored_post :: "store \<Rightarrow> string \<Rightarrow> post option" where
  "stored_post s post_id = find (\<lambda>p. p_post_id p = post_id) (posts s)"

text \<open>\<^verbatim>\<open>table.get_item(Key={'user_id': user_id})\<close> and the same for posts.\<close>

definition users_get_item :: "string \<Rightarrow> user option operation" where
  "users_get_item user_id = op_bind store_call (\<lambda>_ s. (Inr (stored_user s user_id), s))"

definition posts_get_item :: "string \<Rightarrow> post option operation" where
  "posts_get_item post_id = op_bind store_call (\<lambda>_ s. (Inr (stored_post s post_id), s))"

text \<open>
  \<^verbatim>\<open>table.update_item(Key={'post_id': ...}, UpdateExpression="ADD likes_count :likes_delta,
  comments_count :comments_delta")\<close>: both counters of the post with that key move by their
  delta in one step.  For a key that no item has DynamoDB would create an item of the key
  and the two counters alone; \<^verbatim>\<open>update_counts\<close> is only called on a post read earlier
  in the same call, and here the table stays as it is in that case.
\<close>

definition posts_update_item_add :: "string \<Rightarrow> int \<Rightarrow> int \<Rightarrow> unit operation" where
  "posts_update_item_add post_id likes_delta comments_delta =
     op_bind store_call (\<lambda>_ s.
       (Inr (),
        s\<lparr>posts :=
            map (\<lambda>p. if p_post_id p = post_id
                      then p\<lparr>p_likes_count := p_likes_count p + likes_delta,
                             p_comments_count := p_comments_count p + comments_delta\<rparr>
                      else p)
              (posts s)\<rparr>))"

text \<open>\<^verbatim>\<open>table.put_item(Item=item)\<close>: an item with the same primary key is replaced.\<close>

definition interactions_put_item :: "interaction \<Rightarrow> unit operation" where
  "interactions_put_item item =
     op_bind store_call (\<lambda>_ s.
       (Inr (),
        s\<lparr>interactions :=
            item # filter (\<lambda>i. \<not> (i_post_id i = i_post_id item
                                     \<and> i_interaction_id i = i_interaction_id item))
                     (interactions s)\<rparr>))"

text \<open>\<^verbatim>\<open>table.delete_item(Key={'post_id': ..., 'interaction_id': ...})\<close>; no error when
  no item has the key.\<close>

definition interactions_delete_item :: "string \<Rightarrow> string \<Rightarrow> unit operation" where
  "interactions_delete_item post_id interaction_id =
     op_bind store_call (\<lambda>_ s.
       (Inr (),
        s\<lparr>interactions :=
            filter (\<lambda>i. \<not> (i_post_id i = post_id \<and> i_interaction_id i = interaction_id))
              (interactions s)\<rparr>))"

text \<open>
  \<^verbatim>\<open>table.query(KeyConditionExpression=..., FilterExpression=..., Limit=limit)\<close> on the
  interactions table.  The key condition selects the items of one \<^verbatim>\<open>post_id\<close>, further
  narrowed by \<^verbatim>\<open>begins_with(interaction_id, prefix)\<close> when a prefix is given; they come
  in ascending order of the sort key \<^verbatim>\<open>interaction_id\<close>.  \<^verbatim>\<open>Limit\<close> bounds the number of
  items read in that order, and the filter on \<^verbatim>\<open>interaction_type\<close> is applied to the
  items read.  The source reads \<^verbatim>\<open>response['Items']\<close> of this one call and never follows
  \<^verbatim>\<open>LastEvaluatedKey\<close>.
\<close>

definition key_matches :: "string \<Rightarrow> string option \<Rightarrow> interaction \<Rightarrow> bool" where
  "key_matches post_id sk_prefix i =
     (i_post_id i = post_id
      \<and> (case sk_prefix of None \<Rightarrow> True | Some pre \<Rightarrow> prefix pre (i_interaction_id i)))"

definition query_items ::
  "interaction list \<Rightarrow> string \<Rightarrow> string option \<Rightarrow> string option \<Rightarrow> int \<Rightarrow> interaction list" where
  "query_items tbl post_id sk_prefix type_filter limit =
     (let read = take (nat limit)
                   (sort_key i_interaction_id (filter (key_matches post_id sk_prefix) tbl))
      in case type_filter of
           None \<Rightarrow> read
         | Some t \<Rightarrow> filter (\<lambda>i. i_interaction_type i = t) read)"

definition interactions_query ::
  "string \<Rightarrow> string option \<Rightarrow> string option \<Rightarrow> int \<Rightarrow> interaction list operation" where
  "interactions_query post_id sk_prefix type_filter limit =
     op_bind store_call (\<lambda>_.
       if limit < 1 then op_raise ParamValidationError
       else (\<lambda>s. (Inr (query_items (interactions s) post_id sk_prefix type_filter limit), s)))"

subsection \<open>The model classes\<close>

text \<open>\<^verbatim>\<open>User.get_by_id\<close> and \<^verbatim>\<open>Post.get_by_id\<close>: the item as an object, or \<^verbatim>\<open>None\<close>.\<close>

definition User_get_by_id :: "string \<Rightarrow> user option operation" where
  "User_get_by_id user_id = users_get_item user_id"

definition Post_get_by_id :: "string \<Rightarrow> post option operation" where
  "Post_get_by_id post_id = posts_get_item post_id"

text \<open>
  \<^verbatim>\<open>Post.update_counts\<close>: the atomic add on the stored item, then the same deltas on the
  object in hand, which is returned here as the updated object.
\<close>

definition Post_update_counts :: "post \<Rightarrow> int \<Rightarrow> int \<Rightarrow> post operation" where
  "Post_update_counts self likes_delta comments_delta =
     op_bind (posts_update_item_add (p_post_id self) likes_delta comments_delta) (\<lambda>_.
       op_return (self\<lparr>p_likes_count := p_likes_count self + likes_delta,
                       p_comments_count := p_comments_count self + comments_delta\<rparr>))"

text \<open>
  \<^verbatim>\<open>Interaction.__init__\<close>: \<open>now\<close> is the reading \<^verbatim>\<open>datetime.utcnow().isoformat()\<close> of the
  clock the constructor takes; the id is \<^verbatim>\<open>f"{interaction_type}#{user_id}#{created_at}"\<close>.
\<close>

definition Interaction_init ::
  "string \<Rightarrow> string \<Rightarrow> string \<Rightarrow> string option \<Rightarrow> string \<Rightarrow> interaction" where
  "Interaction_init post_id user_id interaction_type content now =
     \<lparr>i_post_id = post_id,
      i_interaction_id = interaction_type @ ''#'' @ user_id @ ''#'' @ now,
      i_user_id = user_id,
      i_interaction_type = interaction_type,
      i_content = content,
      i_created_at = now\<rparr>"

text \<open>\<^verbatim>\<open>Interaction.save\<close>: the content attribute is written only when it is non-empty.\<close>

definition Interaction_save :: "interaction \<Rightarrow> bool operation" where
  "Interaction_save self =
     op_bind
       (interactions_put_item
          (self\<lparr>i_content := (case i_content self of
                                 None \<Rightarrow> None
                               | Some c \<Rightarrow> if c = [] then None else Some c)\<rparr>))
       (\<lambda>_. op_return True)"

text \<open>
  \<^verbatim>\<open>Interaction.get_post_interactions\<close>: one query with the given limit, filtered by type
  when a non-empty type is given.
\<close>

definition Interaction_get_post_interactions ::
  "string \<Rightarrow> string option \<Rightarrow> int \<Rightarrow> interaction list operation" where
  "Interaction_get_post_interactions post_id interaction_type limit =
     interactions_query post_id None
       (case interaction_type of None \<Rightarrow> None | Some t \<Rightarrow> if t = [] then None else Some t)
       limit"

text \<open>
  \<^verbatim>\<open>Interaction.get_user_like\<close>: the first item of the post whose id begins with
  \<^verbatim>\<open>like#{user_id}#\<close>; the object built from it carries no content.
\<close>

definition like_prefix :: "string \<Rightarrow> string" where
  "like_prefix user_id = ''like#'' @ user_id @ ''#''"

definition Interaction_get_user_like :: "string \<Rightarrow> string \<Rightarrow> interaction option operation" where
  "Interaction_get_user_like post_id user_id =
     op_bind (interactions_query post_id (Some (like_prefix user_id)) None 1) (\<lambda>items.
       op_return (case items of [] \<Rightarrow> None | item # _ \<Rightarrow> Some (item\<lparr>i_content := None\<rparr>)))"

text \<open>\<^verbatim>\<open>Interaction.delete_like\<close>: looks the like up again and deletes the item found.\<close>

definition Interaction_delete_like :: "string \<Rightarrow> string \<Rightarrow> bool operation" where
  "Interaction_delete_like post_id user_id =
     op_bind (Interaction_get_user_like post_id user_id) (\<lambda>like.
       case like of
         None \<Rightarrow> op_return False
       | Some l \<Rightarrow>
           op_bind (interactions_delete_item post_id (i_interaction_id l)) (\<lambda>_.
             op_return True))"

text \<open>\<^verbatim>\<open>Interaction.delete\<close>.\<close>

definition Interaction_delete :: "interaction \<Rightarrow> bool operation" where
  "Interaction_delete self =
     op_bind (interactions_delete_item (i_post_id self) (i_interaction_id self)) (\<lambda>_.
       op_return True)"

subsection \<open>The interaction service\<close>

text \<open>
  What the service returns: the dictionaries of the source as records, the localized
  \<^verbatim>\<open>message\<close> as a tag.
\<close>

record like_result =
  tl_liked :: bool
  tl_likes_count :: int
  tl_message :: message

record comment_data =
  cd_interaction_id :: string
  cd_post_id :: string
  cd_user_id :: string
  cd_username :: string
  cd_content :: "string option"
  cd_created_at :: string

record comment_result =
  ac_comment :: comment_data
  ac_comments_count :: int
  ac_message :: message

record like_entry =
  le_user_id :: string
  le_username :: string
  le_profile_image :: "string option"
  le_created_at :: string

record likes_result =
  gl_likes :: "like_entry list"
  gl_likes_count :: nat
  gl_total_likes :: int

record comment_entry =
  ce_interaction_id :: string
  ce_user_id :: string
  ce_username :: string
  ce_profile_image :: "string option"
  ce_content :: "string option"
  ce_created_at :: string

record comments_result =
  gc_comments :: "comment_entry list"
  gc_comments_count :: nat
  gc_total_comments :: int

record delete_result =
  dc_message :: message
  dc_comments_count :: int

text \<open>
  \<^verbatim>\<open>InteractionService.toggle_like\<close>.  \<open>now\<close> is the clock reading taken when the like is
  built.  The wrapper \<^verbatim>\<open>monitor_database_operation\<close> counts the call and raises again
  whatever the body raised.
\<close>

definition toggle_like :: "string \<Rightarrow> string \<Rightarrow> string \<Rightarrow> like_result operation" where
  "toggle_like user_id post_id now =
     op_bind (Post_get_by_id post_id) (\<lambda>post.
       case post of
         None \<Rightarrow> op_raise (NotFoundError PostNotFound)
       | Some post \<Rightarrow>
           op_bind (Interaction_get_user_like post_id user_id) (\<lambda>existing_like.
             case existing_like of
               Some _ \<Rightarrow>
                 op_bind (Interaction_delete_like post_id user_id) (\<lambda>_.
                 op_bind (Post_update_counts post (- 1) 0) (\<lambda>post.
                   op_return \<lparr>tl_liked = False,
                              tl_likes_count = p_likes_count post,
                              tl_message = LikeRemoved\<rparr>))
             | None \<Rightarrow>
                 op_bind (Interaction_save
                            (Interaction_init post_id user_id ''like'' None now)) (\<lambda>_.
                 op_bind (Post_update_counts post 1 0) (\<lambda>post.
                   op_return \<lparr>tl_liked = True,
                              tl_likes_count = p_likes_count post,
                              tl_message = LikeAdded\<rparr>))))"

text \<open>
  \<^verbatim>\<open>str.strip()\<close>: leading and trailing whitespace removed; \<open>isspace\<close> holds of the
  characters below code 256 that \<^verbatim>\<open>str.isspace\<close> accepts.
\<close>

definition isspace :: "char \<Rightarrow> bool" where
  "isspace c = (of_char c \<in> {9, 10, 11, 12, 13, 28, 29, 30, 31, 32, 133, 160 :: nat})"

definition strip :: "string \<Rightarrow> string" where
  "strip s = rev (dropWhile isspace (rev (dropWhile isspace s)))"

text \<open>\<^verbatim>\<open>InteractionService.add_comment\<close>.\<close>

definition add_comment ::
  "string \<Rightarrow> string \<Rightarrow> string \<Rightarrow> string \<Rightarrow> comment_result operation" where
  "add_comment user_id post_id content now =
     (if content = [] \<or> strip content = [] then
        op_raise (ValidationError CommentContentRequired)
      else
        (let trimmed_content = strip content in
         if length trimmed_content > 500 then op_raise (ValidationError CommentTooLong)
         else
           op_bind (Post_get_by_id post_id) (\<lambda>post.
             case post of
               None \<Rightarrow> op_raise (NotFoundError PostNotFound)
             | Some post \<Rightarrow>
                 op_bind (User_get_by_id user_id) (\<lambda>user.
                   case user of
                     None \<Rightarrow> op_raise (NotFoundError UserNotFound)
                   | Some user \<Rightarrow>
                       (let comment = Interaction_init post_id user_id ''comment''
                                        (Some trimmed_content) now
                        in op_bind (Interaction_save comment) (\<lambda>_.
                           op_bind (Post_update_counts post 0 1) (\<lambda>post.
                             op_return
                               \<lparr>ac_comment =
                                  \<lparr>cd_interaction_id = i_interaction_id comment,
                                   cd_post_id = i_post_id comment,
                                   cd_user_id = i_user_id comment,
                                   cd_username = u_username user,
                                   cd_content = i_content comment,
                                   cd_created_at = i_created_at comment\<rparr>,
                                ac_comments_count = p_comments_count post,
                                ac_message = CommentPosted\<rparr>)))))))"

text \<open>
  \<^verbatim>\<open>InteractionService.get_post_likes\<close>.  The loop looks up the user of each like and
  leaves out a like whose user is not found.
\<close>

fun likes_with_users :: "interaction list \<Rightarrow> like_entry list operation" where
  "likes_with_users [] = op_return []"
| "likes_with_users (like # likes) =
     op_bind (User_get_by_id (i_user_id like)) (\<lambda>user.
     op_bind (likes_with_users likes) (\<lambda>rest.
       op_return (case user of
                    None \<Rightarrow> rest
                  | Some user \<Rightarrow>
                      \<lparr>le_user_id = u_user_id user,
                       le_username = u_username user,
                       le_profile_image = u_profile_image user,
                       le_created_at = i_created_at like\<rparr> # rest)))"

definition get_post_likes :: "string \<Rightarrow> int \<Rightarrow> likes_result operation" where
  "get_post_likes post_id limit =
     op_bind (Post_get_by_id post_id) (\<lambda>post.
       case post of
         None \<Rightarrow> op_raise (NotFoundError PostNotFound)
       | Some post \<Rightarrow>
           op_bind (Interaction_get_post_interactions post_id (Some ''like'') limit) (\<lambda>likes.
           op_bind (likes_with_users likes) (\<lambda>likes_with_users.
             op_return \<lparr>gl_likes = likes_with_users,
                        gl_likes_count = length likes_with_users,
                        gl_total_likes = p_likes_count post\<rparr>)))"

text \<open>
  \<^verbatim>\<open>InteractionService.get_post_comments\<close>: the same with comments, the list sorted in
  place by \<^verbatim>\<open>created_at\<close> (\<^verbatim>\<open>list.sort\<close> is stable, as \<^const>\<open>sort_key\<close> is).
\<close>

fun comments_with_users :: "interaction list \<Rightarrow> comment_entry list operation" where
  "comments_with_users [] = op_return []"
| "comments_with_users (comment # comments) =
     op_bind (User_get_by_id (i_user_id comment)) (\<lambda>user.
     op_bind (comments_with_users comments) (\<lambda>rest.
       op_return (case user of
                    None \<Rightarrow> rest
                  | Some user \<Rightarrow>
                      \<lparr>ce_interaction_id = i_interaction_id comment,
                       ce_user_id = u_user_id user,
                       ce_username = u_username user,
                       ce_profile_image = u_profile_image user,
                       ce_content = i_content comment,
                       ce_created_at = i_created_at comment\<rparr> # rest)))"

definition get_post_comments :: "string \<Rightarrow> int \<Rightarrow> comments_result operation" where
  "get_post_comments post_id limit =
     op_bind (Post_get_by_id post_id) (\<lambda>post.
       case post of
         None \<Rightarrow> op_raise (NotFoundError PostNotFound)
       | Some post \<Rightarrow>
           op_bind (Interaction_get_post_interactions post_id (Some ''comment'') limit)
             (\<lambda>comments.
           op_bind (comments_with_users comments) (\<lambda>comments_with_users.
             (let sorted_comments = sort_key ce_created_at comments_with_users
              in op_return \<lparr>gc_comments = sorted_comments,
                            gc_comments_count = length sorted_comments,
                            gc_total_comments = p_comments_count post\<rparr>))))"

text \<open>
  \<^verbatim>\<open>InteractionService.get_user_like_status\<close>: any exception of the lookup is caught and
  answered with \<^verbatim>\<open>False\<close>.
\<close>

definition get_user_like_status :: "string \<Rightarrow> string \<Rightarrow> bool operation" where
  "get_user_like_status user_id post_id =
     op_catch
       (op_bind (Interaction_get_user_like post_id user_id) (\<lambda>like.
          op_return (like \<noteq> None)))
       (\<lambda>e. op_return False)"

text \<open>
  \<^verbatim>\<open>InteractionService.delete_comment\<close>.  The comments are fetched with the default
  \<^verbatim>\<open>limit=50\<close> of \<^verbatim>\<open>get_post_interactions\<close>; the handler of the surrounding
  \<^verbatim>\<open>try\<close> logs and raises again.
\<close>

definition delete_comment :: "string \<Rightarrow> string \<Rightarrow> string \<Rightarrow> delete_result operation" where
  "delete_comment user_id post_id interaction_id =
     op_bind (Interaction_get_post_interactions post_id (Some ''comment'') 50) (\<lambda>comments.
       case find (\<lambda>c. i_interaction_id c = interaction_id) comments of
         None \<Rightarrow> op_raise (NotFoundError CommentNotFound)
       | Some comment \<Rightarrow>
           if i_user_id comment \<noteq> user_id then op_raise (ValidationError OwnCommentsOnly)
           else
             op_bind (Interaction_delete comment) (\<lambda>_.
             op_bind (Post_get_by_id post_id) (\<lambda>post.
               case post of
                 Some post \<Rightarrow>
                   op_bind (Post_update_counts post 0 (- 1)) (\<lambda>post.
                     op_return \<lparr>dc_message = CommentDeleted,
                                dc_comments_count = p_comments_count post\<rparr>)
               | None \<Rightarrow>
                   op_return \<lparr>dc_message = CommentDeleted, dc_comments_count = 0\<rparr>)))"

subsection \<open>Sequences of calls and example stores\<close>

text \<open>
  Consecutive \<^verbatim>\<open>toggle_like\<close> calls of one user on one post, one call per clock reading,
  each on the store the call before left: the outcome of every call with the store after
  it, and the stores the sequence goes through, the first one included.
\<close>

fun toggle_like_run ::
  "string \<Rightarrow> string \<Rightarrow> string list \<Rightarrow> store \<Rightarrow> ((error + like_result) \<times> store) list" where
  "toggle_like_run user_id post_id [] s = []"
| "toggle_like_run user_id post_id (now # clock) s =
     toggle_like user_id post_id now s
       # toggle_like_run user_id post_id clock (snd (toggle_like user_id post_id now s))"

definition toggle_like_states :: "string \<Rightarrow> string \<Rightarrow> string list \<Rightarrow> store \<Rightarrow> store list" where
  "toggle_like_states user_id post_id clock s =
     s # map snd (toggle_like_run user_id post_id clock s)"

text \<open>A store with two users and one post without likes or comments.\<close>

definition alice :: user where
  "alice = \<lparr>u_user_id = ''u1'', u_username = ''alice'', u_email = ''alice@example.com'',
            u_password_hash = ''h1'', u_profile_image = Some ''alice.jpg'', u_bio = None,
            u_created_at = ''2024-05-01T09:00:00''\<rparr>"

definition bob :: user where
  "bob = \<lparr>u_user_id = ''u2'', u_username = ''bob'', u_email = ''bob@example.com'',
          u_password_hash = ''h2'', u_profile_image = None, u_bio = None,
          u_created_at = ''2024-05-01T09:30:00''\<rparr>"

definition photo :: post where
  "photo = \<lparr>p_post_id = ''p1'', p_user_id = ''u1'', p_image_key = ''test/image.jpg'',
            p_caption = Some ''Test post'', p_likes_count = 0, p_comments_count = 0,
            p_created_at = ''2024-05-01T10:00:00''\<rparr>"

definition small_store :: store where
  "small_store = \<lparr>users = [alice, bob], posts = [photo], interactions = [], faults = []\<rparr>"

text \<open>
  A store whose two users have the ids \<^verbatim>\<open>a\<close> and \<^verbatim>\<open>a#b\<close>, and that store after three
  calls: the first user likes the post, the second likes it, the first toggles again.
\<close>

definition carol :: user where
  "carol = \<lparr>u_user_id = ''a'', u_username = ''carol'', u_email = ''carol@example.com'',
            u_password_hash = ''h3'', u_profile_image = None, u_bio = None,
            u_created_at = ''2024-05-01T09:40:00''\<rparr>"

definition dave :: user where
  "dave = \<lparr>u_user_id = ''a#b'', u_username = ''dave'', u_email = ''dave@example.com'',
           u_password_hash = ''h4'', u_profile_image = None, u_bio = None,
           u_created_at = ''2024-05-01T09:50:00''\<rparr>"

definition prefix_ids_store :: store where
  "prefix_ids_store =
     \<lparr>users = [carol, dave], posts = [photo], interactions = [], faults = []\<rparr>"

definition shared_prefix_store :: store where
  "shared_prefix_store =
     snd (toggle_like ''a'' ''p1'' ''2024-05-02T08:00:03''
       (snd (toggle_like ''a#b'' ''p1'' ''2024-05-02T08:00:02''
         (snd (toggle_like ''a'' ''p1'' ''2024-05-02T08:00:01'' prefix_ids_store)))))"

text \<open>The small store after the first user has commented on the post.\<close>

definition once_commented_store :: store where
  "once_commented_store =
     snd (add_comment ''u1'' ''p1'' ''hello'' ''2024-05-02T08:00:00'' small_store)"

text \<open>
  The small store after two comments, the second user's first: in key order the later
  comment comes first.
\<close>

definition two_comments_store :: store where
  "two_comments_store =
     snd (add_comment ''u1'' ''p1'' ''Second comment'' ''2024-05-02T08:00:02''
       (snd (add_comment ''u2'' ''p1'' ''First comment'' ''2024-05-02T08:00:01'' small_store)))"

text \<open>The small store after both users have liked the post.\<close>

definition both_liked_store :: store where
  "both_liked_store =
     snd (toggle_like ''u2'' ''p1'' ''2024-05-02T08:00:02''
       (snd (toggle_like ''u1'' ''p1'' ''2024-05-02T08:00:01'' small_store)))"

text \<open>
  The small store after \<^verbatim>\<open>toggle_like\<close> with a \<^verbatim>\<open>user_id\<close> that no stored user has
  (\<^verbatim>\<open>toggle_like\<close> does not look the user up).
\<close>

definition ghost_like_store :: store where
  "ghost_like_store = snd (toggle_like ''ghost'' ''p1'' ''2024-05-02T08:00:00'' small_store)"

text \<open>The small store when its next call fails.\<close>

definition failing_store :: store where
  "failing_store = small_store\<lparr>faults := [True]\<rparr>"

text \<open>
  A store whose post has 51 comments of the first user, one per second, and counts them.
\<close>

definition two_digits :: "nat \<Rightarrow> string" where
  "two_digits n = [char_of (48 + n div 10), char_of (48 + n mod 10)]"

definition nth_comment :: "nat \<Rightarrow> interaction" where
  "nth_comment n =
     \<lparr>i_post_id = ''p1'',
      i_interaction_id = ''comment#u1#2024-05-02T08:00:'' @ two_digits n,
      i_user_id = ''u1'',
      i_interaction_type = ''comment'',
      i_content = Some ''nice'',
      i_created_at = ''2024-05-02T08:00:'' @ two_digits n\<rparr>"

definition crowded_store :: store where
  "crowded_store =
     \<lparr>users = [alice, bob],
      posts = [photo\<lparr>p_comments_count := 51\<rparr>],
      interactions = map nth_comment [0..<51],
      faults = []\<rparr>"

text \<open>
  Failures that reach the caller.  Between the store an operation starts on and the store
  it leaves, the entries of \<open>faults\<close> used up are those of the store calls made.
  \<open>no_call_failed\<close> says that none of them was a failure, and an operation \<open>propagates\<close>
  the failures of the store when it returns a value only if none of its calls failed.
\<close>

definition no_call_failed :: "store \<Rightarrow> store \<Rightarrow> bool" where
  "no_call_failed s s' \<longleftrightarrow>
     (let n = length (faults s) - length (faults s')
      in faults s' = drop n (faults s) \<and> True \<notin> set (take n (faults s)))"

definition propagates :: "'a operation \<Rightarrow> bool" where
  "propagates m \<longleftrightarrow> (\<forall>s x s'. m s = (Inr x, s') \<longrightarrow> no_call_failed s s')"

text \<open>
  A like of a user on a post, read off the attributes of the item: an interaction of
  that post and that user whose \<^verbatim>\<open>interaction_type\<close> is \<^verbatim>\<open>like\<close>.
\<close>

definition like_of :: "string \<Rightarrow> string \<Rightarrow> interaction \<Rightarrow> bool" where
  "like_of post_id user_id i \<longleftrightarrow>
     i_post_id i = post_id \<and> i_user_id i = user_id \<and> i_interaction_type i = ''like''"

text \<open>Two stores hold the same tables; they may differ in the failures to come.\<close>

definition same_tables :: "store \<Rightarrow> store \<Rightarrow> bool" where
  "same_tables s s' \<longleftrightarrow>
     users s' = users s \<and> posts s' = posts s \<and> interactions s' = interactions s"

text \<open>The small store after the second user has liked the post.\<close>

definition bob_liked_store :: store where
  "bob_liked_store =
     snd (toggle_like ''u2'' ''p1'' ''2024-05-02T08:00:00'' small_store)"

text \<open>
  The store of the users \<^verbatim>\<open>a\<close> and \<^verbatim>\<open>a#b\<close> after the second of them has liked the post.
\<close>

definition foreign_like_store :: store where
  "foreign_like_store =
     snd (toggle_like ''a#b'' ''p1'' ''2024-05-02T08:00:01'' prefix_ids_store)"

text \<open>The store of the 51 comments after the first user has liked the post.\<close>

definition crowded_liked_store :: store where
  "crowded_liked_store =
     snd (toggle_like ''u1'' ''p1'' ''2024-05-02T08:01:00'' crowded_store)"

section \<open>Properties\<close>

subsection \<open>Calls to a store that does not fail\<close>

lemma store_call_nofault: "faults s = [] \<Longrightarrow> store_call s = (Inr (), s)"
  by (simp add: store_call_def)

lemma Post_get_by_id_nofault:
  "faults s = [] \<Longrightarrow> Post_get_by_id post_id s = (Inr (stored_post s post_id), s)"
  by (simp add: Post_get_by_id_def posts_get_item_def op_bind_def store_call_nofault)

lemma User_get_by_id_nofault:
  "faults s = [] \<Longrightarrow> User_get_by_id user_id s = (Inr (stored_user s user_id), s)"
  by (simp add: User_get_by_id_def users_get_item_def op_bind_def store_call_nofault)

lemma interactions_query_nofault:
  "faults s = [] \<Longrightarrow> 1 \<le> limit \<Longrightarrow>
   interactions_query post_id pre flt limit s =
     (Inr (query_items (interactions s) post_id pre flt limit), s)"
  by (simp add: interactions_query_def op_bind_def store_call_nofault)

lemma Interaction_get_user_like_nofault:
  "faults s = [] \<Longrightarrow>
   Interaction_get_user_like post_id user_id s =
     (Inr (case query_items (interactions s) post_id (Some (like_prefix user_id)) None 1 of
             [] \<Rightarrow> None
           | item # _ \<Rightarrow> Some (item\<lparr>i_content := None\<rparr>)), s)"
  by (simp add: Interaction_get_user_like_def op_bind_def op_return_def
      interactions_query_nofault)

lemma Post_update_counts_nofault:
  "faults s = [] \<Longrightarrow>
   Post_update_counts self ld cd s =
     (Inr (self\<lparr>p_likes_count := p_likes_count self + ld,
                 p_comments_count := p_comments_count self + cd\<rparr>),
      s\<lparr>posts := map (\<lambda>p. if p_post_id p = p_post_id self
                             then p\<lparr>p_likes_count := p_likes_count p + ld,
                                    p_comments_count := p_comments_count p + cd\<rparr>
                             else p) (posts s)\<rparr>)"
  by (simp add: Post_update_counts_def posts_update_item_add_def op_bind_def op_return_def
      store_call_nofault)

lemma interactions_put_item_nofault:
  "faults s = [] \<Longrightarrow>
   interactions_put_item item s =
     (Inr (), s\<lparr>interactions :=
                 item # filter (\<lambda>i. \<not> (i_post_id i = i_post_id item
                                          \<and> i_interaction_id i = i_interaction_id item))
                          (interactions s)\<rparr>)"
  by (simp add: interactions_put_item_def op_bind_def store_call_nofault)

lemma interactions_delete_item_nofault:
  "faults s = [] \<Longrightarrow>
   interactions_delete_item post_id iid s =
     (Inr (), s\<lparr>interactions :=
                 filter (\<lambda>i. \<not> (i_post_id i = post_id \<and> i_interaction_id i = iid))
                   (interactions s)\<rparr>)"
  by (simp add: interactions_delete_item_def op_bind_def store_call_nofault)

lemma stored_post_id: "stored_post s post_id = Some post \<Longrightarrow> p_post_id post = post_id"
  by (auto simp: stored_post_def find_Some_iff)

lemma stored_post_None_iff:
  "stored_post s post_id = None \<longleftrightarrow> post_id \<notin> p_post_id ` set (posts s)"
  by (auto simp: stored_post_def find_None_iff)

lemma stored_user_None_iff:
  "stored_user s user_id = None \<longleftrightarrow> user_id \<notin> u_user_id ` set (users s)"
  by (auto simp: stored_user_def find_None_iff)

lemma stored_post_after_update:
  "stored_post
     (s\<lparr>posts := map (\<lambda>p. if p_post_id p = k
                            then p\<lparr>p_likes_count := p_likes_count p + ld,
                                   p_comments_count := p_comments_count p + cd\<rparr>
                            else p) (posts s)\<rparr>) post_id =
   map_option (\<lambda>p. if p_post_id p = k
                    then p\<lparr>p_likes_count := p_likes_count p + ld,
                           p_comments_count := p_comments_count p + cd\<rparr>
                    else p) (stored_post s post_id)"
proof -
  have "find (\<lambda>p. p_post_id p = post_id)
          (map (\<lambda>p. if p_post_id p = k
                     then p\<lparr>p_likes_count := p_likes_count p + ld,
                            p_comments_count := p_comments_count p + cd\<rparr>
                     else p) ps) =
        map_option (\<lambda>p. if p_post_id p = k
                     then p\<lparr>p_likes_count := p_likes_count p + ld,
                            p_comments_count := p_comments_count p + cd\<rparr>
                     else p) (find (\<lambda>p. p_post_id p = post_id) ps)" for ps
    by (induction ps) auto
  then show ?thesis
    by (simp add: stored_post_def)
qed

subsection \<open>Toggling a like on a post that does not exist\<close>

text \<open>
  Claim C7.  When no stored post has the given \<^verbatim>\<open>post_id\<close> (and the store answers),
  \<^verbatim>\<open>toggle_like\<close> raises \<^verbatim>\<open>NotFoundError\<close> for every user and leaves the store as it
  was: no interaction is written or deleted and no counter moves.
\<close>

theorem toggle_like_unknown_post:
  assumes "faults s = []"
    and "post_id \<notin> p_post_id ` set (posts s)"
  shows "toggle_like user_id post_id now s = (Inl (NotFoundError PostNotFound), s)"
proof -
  have "stored_post s post_id = None"
    using assms(2) by (simp add: stored_post_None_iff)
  then show ?thesis
    using assms(1)
    by (simp add: toggle_like_def op_bind_def op_raise_def Post_get_by_id_nofault)
qed

theorem toggle_like_unknown_post_witness:
  "faults small_store = [] \<and> ''nonexistent_post_id'' \<notin> p_post_id ` set (posts small_store)
   \<and> toggle_like ''u1'' ''nonexistent_post_id'' ''2024-05-02T08:00:00'' small_store
       = (Inl (NotFoundError PostNotFound), small_store)"
proof -
  have f: "faults small_store = []"
    by (simp add: small_store_def)
  have p: "''nonexistent_post_id'' \<notin> p_post_id ` set (posts small_store)"
    by (simp add: small_store_def photo_def)
  show ?thesis
    using f p toggle_like_unknown_post [OF f p] by simp
qed

subsection \<open>The lookup of a user's like\<close>

lemma query_first_empty_iff:
  "query_items tbl post_id pre None 1 = [] \<longleftrightarrow> filter (key_matches post_id pre) tbl = []"
proof -
  have "take 1 xs = [] \<longleftrightarrow> xs = []" for xs :: "interaction list"
    by (cases xs) simp_all
  moreover have "sort_key f xs = [] \<longleftrightarrow> xs = []" for f :: "interaction \<Rightarrow> string" and xs
    by (metis length_sort length_0_conv)
  ultimately show ?thesis
    by (simp add: query_items_def)
qed

lemma query_first_single:
  "filter (key_matches post_id pre) tbl = [x] \<Longrightarrow> query_items tbl post_id pre None 1 = [x]"
  by (simp add: query_items_def)

lemma no_live_like_iff:
  assumes "faults s = []"
  shows "fst (Interaction_get_user_like post_id user_id s) = Inr None \<longleftrightarrow>
         filter (key_matches post_id (Some (like_prefix user_id))) (interactions s) = []"
  using query_first_empty_iff [of "interactions s" post_id "Some (like_prefix user_id)"]
  by (cases "query_items (interactions s) post_id (Some (like_prefix user_id)) None 1")
     (simp_all add: Interaction_get_user_like_nofault [OF assms])

lemma stored_post_bumped:
  assumes "posts s' = map (\<lambda>p. if p_post_id p = k
                            then p\<lparr>p_likes_count := p_likes_count p + ld,
                                   p_comments_count := p_comments_count p + cd\<rparr>
                            else p) (posts s)"
  shows "stored_post s' post_id =
   map_option (\<lambda>p. if p_post_id p = k
                    then p\<lparr>p_likes_count := p_likes_count p + ld,
                           p_comments_count := p_comments_count p + cd\<rparr>
                    else p) (stored_post s post_id)"
proof -
  have "stored_post s' post_id = stored_post (s\<lparr>posts := posts s'\<rparr>) post_id"
    by (simp add: stored_post_def)
  then show ?thesis
    by (simp add: assms stored_post_after_update)
qed

lemma like_key_matches:
  "key_matches post_id (Some (like_prefix user_id))
     (Interaction_init post_id user_id ''like'' c now)"
  by (simp add: key_matches_def like_prefix_def Interaction_init_def)

subsection \<open>One call of toggle_like\<close>

lemma toggle_like_adds:
  assumes nf: "faults s = []"
    and post: "stored_post s post_id = Some post"
    and none: "filter (key_matches post_id (Some (like_prefix user_id))) (interactions s) = []"
  shows "toggle_like user_id post_id now s =
    (Inr \<lparr>tl_liked = True, tl_likes_count = p_likes_count post + 1, tl_message = LikeAdded\<rparr>,
     s\<lparr>interactions := Interaction_init post_id user_id ''like'' None now # interactions s,
        posts := map (\<lambda>p. if p_post_id p = post_id
                then p\<lparr>p_likes_count := p_likes_count p + 1,
                       p_comments_count := p_comments_count p + 0\<rparr>
                else p) (posts s)\<rparr>)"
proof -
  let ?n = "Interaction_init post_id user_id ''like'' None now"
  have pid: "p_post_id post = post_id"
    using post by (rule stored_post_id)
  have q: "query_items (interactions s) post_id (Some (like_prefix user_id)) None 1 = []"
    using none by (simp add: query_first_empty_iff)
  have "\<forall>i \<in> set (interactions s). \<not> key_matches post_id (Some (like_prefix user_id)) i"
    using none by (simp add: filter_empty_conv)
  then have "\<forall>i \<in> set (interactions s).
      \<not> (i_post_id i = i_post_id ?n \<and> i_interaction_id i = i_interaction_id ?n)"
    using like_key_matches [of post_id user_id None now]
    by (auto simp: key_matches_def)
  then have keep: "filter (\<lambda>i. \<not> (i_post_id i = i_post_id ?n
                      \<and> i_interaction_id i = i_interaction_id ?n)) (interactions s)
                   = interactions s"
    by (simp add: filter_id_conv)
  have save: "Interaction_save ?n s = (Inr True, s\<lparr>interactions := ?n # interactions s\<rparr>)"
    using keep
    by (simp add: Interaction_save_def op_bind_def op_return_def
        interactions_put_item_nofault [OF nf] Interaction_init_def)
  show ?thesis
    by (simp add: toggle_like_def op_bind_def op_return_def Post_get_by_id_nofault [OF nf]
        post Interaction_get_user_like_nofault [OF nf] q save
        Post_update_counts_nofault nf pid)
qed

lemma toggle_like_removes:
  assumes nf: "faults s = []"
    and post: "stored_post s post_id = Some post"
    and one: "filter (key_matches post_id (Some (like_prefix user_id))) (interactions s) = [x]"
  shows "toggle_like user_id post_id now s =
    (Inr \<lparr>tl_liked = False, tl_likes_count = p_likes_count post + (- 1),
          tl_message = LikeRemoved\<rparr>,
     s\<lparr>interactions := filter (\<lambda>i. \<not> (i_post_id i = post_id
                                       \<and> i_interaction_id i = i_interaction_id x))
                          (interactions s),
        posts := map (\<lambda>p. if p_post_id p = post_id
                then p\<lparr>p_likes_count := p_likes_count p + (- 1),
                       p_comments_count := p_comments_count p + 0\<rparr>
                else p) (posts s)\<rparr>)"
proof -
  have pid: "p_post_id post = post_id"
    using post by (rule stored_post_id)
  have q: "query_items (interactions s) post_id (Some (like_prefix user_id)) None 1 = [x]"
    using one by (rule query_first_single)
  have del: "Interaction_delete_like post_id user_id s =
      (Inr True, s\<lparr>interactions := filter (\<lambda>i. \<not> (i_post_id i = post_id
                                       \<and> i_interaction_id i = i_interaction_id x))
                          (interactions s)\<rparr>)"
    by (simp add: Interaction_delete_like_def op_bind_def op_return_def
        Interaction_get_user_like_nofault [OF nf] q interactions_delete_item_nofault [OF nf])
  show ?thesis
    by (simp add: toggle_like_def op_bind_def op_return_def Post_get_by_id_nofault [OF nf]
        post Interaction_get_user_like_nofault [OF nf] q del
        Post_update_counts_nofault nf pid)
qed

text \<open>The state of the toggle: whether the user's like is stored.\<close>

lemma toggle_like_step:
  assumes nf: "faults s = []"
    and post: "stored_post s post_id = Some post"
    and st: "if b then (\<exists>x. filter (key_matches post_id (Some (like_prefix user_id)))
                              (interactions s) = [x])
             else filter (key_matches post_id (Some (like_prefix user_id)))
                    (interactions s) = []"
  shows "\<exists>s' post'.
      toggle_like user_id post_id now s =
        (Inr \<lparr>tl_liked = (\<not> b),
              tl_likes_count = p_likes_count post + (if b then - 1 else 1),
              tl_message = (if b then LikeRemoved else LikeAdded)\<rparr>, s')
      \<and> faults s' = []
      \<and> stored_post s' post_id = Some post'
      \<and> p_likes_count post' = p_likes_count post + (if b then - 1 else 1)
      \<and> (if \<not> b then (\<exists>x. filter (key_matches post_id (Some (like_prefix user_id)))
                              (interactions s') = [x])
          else filter (key_matches post_id (Some (like_prefix user_id)))
                    (interactions s') = [])"
proof (cases b)
  case True
  then obtain x where x: "filter (key_matches post_id (Some (like_prefix user_id)))
                              (interactions s) = [x]"
    using st by auto
  then have "x \<in> set (filter (key_matches post_id (Some (like_prefix user_id)))
                              (interactions s))"
    by simp
  then have xp: "i_post_id x = post_id"
    by (simp add: key_matches_def)
  let ?s' = "s\<lparr>interactions := filter (\<lambda>i. \<not> (i_post_id i = post_id
                                       \<and> i_interaction_id i = i_interaction_id x))
                          (interactions s),
        posts := map (\<lambda>p. if p_post_id p = post_id
                then p\<lparr>p_likes_count := p_likes_count p + (- 1),
                       p_comments_count := p_comments_count p + 0\<rparr>
                else p) (posts s)\<rparr>"
  let ?post' = "post\<lparr>p_likes_count := p_likes_count post + (- 1),
                       p_comments_count := p_comments_count post + 0\<rparr>"
  have "filter (key_matches post_id (Some (like_prefix user_id)))
          (filter (\<lambda>i. \<not> (i_post_id i = post_id
                                       \<and> i_interaction_id i = i_interaction_id x))
                          (interactions s)) =
        filter (\<lambda>i. \<not> (i_post_id i = post_id
                                       \<and> i_interaction_id i = i_interaction_id x))
           (filter (key_matches post_id (Some (like_prefix user_id))) (interactions s))"
    by (simp add: conj_commute)
  also have "\<dots> = []"
    using xp by (simp add: x)
  finally have gone: "filter (key_matches post_id (Some (like_prefix user_id)))
                        (interactions ?s') = []"
    by simp
  have t: "toggle_like user_id post_id now s =
        (Inr \<lparr>tl_liked = (\<not> b),
              tl_likes_count = p_likes_count post + (if b then - 1 else 1),
              tl_message = (if b then LikeRemoved else LikeAdded)\<rparr>, ?s')"
    using True by (simp add: toggle_like_removes [OF nf post x])
  have nf': "faults ?s' = []"
    using nf by simp
  have "stored_post ?s' post_id = map_option (\<lambda>p. if p_post_id p = post_id
                then p\<lparr>p_likes_count := p_likes_count p + (- 1),
                       p_comments_count := p_comments_count p + 0\<rparr>
                else p) (stored_post s post_id)"
    by (rule stored_post_bumped) simp
  then have p': "stored_post ?s' post_id = Some ?post'"
    using stored_post_id [OF post] by (simp add: post)
  have c': "p_likes_count ?post' = p_likes_count post + (if b then - 1 else 1)"
    using True by simp
  have st': "if \<not> b then (\<exists>x. filter (key_matches post_id (Some (like_prefix user_id)))
                              (interactions ?s') = [x])
          else filter (key_matches post_id (Some (like_prefix user_id)))
                    (interactions ?s') = []"
    using True gone by simp
  from t nf' p' c' st' show ?thesis
    by blast
next
  case False
  then have none: "filter (key_matches post_id (Some (like_prefix user_id)))
                    (interactions s) = []"
    using st by simp
  let ?n = "Interaction_init post_id user_id ''like'' None now"
  let ?s' = "s\<lparr>interactions := ?n # interactions s,
        posts := map (\<lambda>p. if p_post_id p = post_id
                then p\<lparr>p_likes_count := p_likes_count p + 1,
                       p_comments_count := p_comments_count p + 0\<rparr>
                else p) (posts s)\<rparr>"
  let ?post' = "post\<lparr>p_likes_count := p_likes_count post + 1,
                       p_comments_count := p_comments_count post + 0\<rparr>"
  have t: "toggle_like user_id post_id now s =
        (Inr \<lparr>tl_liked = (\<not> b),
              tl_likes_count = p_likes_count post + (if b then - 1 else 1),
              tl_message = (if b then LikeRemoved else LikeAdded)\<rparr>, ?s')"
    using False by (simp add: toggle_like_adds [OF nf post none])
  have nf': "faults ?s' = []"
    using nf by simp
  have "stored_post ?s' post_id = map_option (\<lambda>p. if p_post_id p = post_id
                then p\<lparr>p_likes_count := p_likes_count p + 1,
                       p_comments_count := p_comments_count p + 0\<rparr>
                else p) (stored_post s post_id)"
    by (rule stored_post_bumped) simp
  then have p': "stored_post ?s' post_id = Some ?post'"
    using stored_post_id [OF post] by (simp add: post)
  have c': "p_likes_count ?post' = p_likes_count post + (if b then - 1 else 1)"
    using False by simp
  have "filter (key_matches post_id (Some (like_prefix user_id))) (interactions ?s') = [?n]"
    using none like_key_matches [of post_id user_id None now] by simp
  then have st': "if \<not> b then (\<exists>x. filter (key_matches post_id (Some (like_prefix user_id)))
                              (interactions ?s') = [x])
          else filter (key_matches post_id (Some (like_prefix user_id)))
                    (interactions ?s') = []"
    using False by simp
  from t nf' p' c' st' show ?thesis
    by blast
qed

subsection \<open>Consecutive calls of toggle_like\<close>

lemma toggle_like_run_general:
  assumes "faults s = []"
    and "stored_post s post_id = Some post"
    and "if b then (\<exists>x. filter (key_matches post_id (Some (like_prefix user_id)))
                              (interactions s) = [x])
             else filter (key_matches post_id (Some (like_prefix user_id)))
                    (interactions s) = []"
    and "k < length clock"
  shows "\<exists>s' post'.
      toggle_like_run user_id post_id clock s ! k =
        (Inr \<lparr>tl_liked = (even k \<noteq> b),
              tl_likes_count = p_likes_count post
                                 + (if even k then (if b then - 1 else 1) else 0),
              tl_message = (if even k \<noteq> b then LikeAdded else LikeRemoved)\<rparr>, s')
      \<and> stored_post s' post_id = Some post'
      \<and> p_likes_count post' = p_likes_count post
                                 + (if even k then (if b then - 1 else 1) else 0)"
  using assms
proof (induction clock arbitrary: s post b k)
  case Nil
  then show ?case by simp
next
  case (Cons now clock)
  from toggle_like_step [OF Cons.prems(1) Cons.prems(2) Cons.prems(3), of now]
  obtain s1 post1 where
    t: "toggle_like user_id post_id now s =
        (Inr \<lparr>tl_liked = (\<not> b),
              tl_likes_count = p_likes_count post + (if b then - 1 else 1),
              tl_message = (if b then LikeRemoved else LikeAdded)\<rparr>, s1)"
    and nf1: "faults s1 = []"
    and p1: "stored_post s1 post_id = Some post1"
    and c1: "p_likes_count post1 = p_likes_count post + (if b then - 1 else 1)"
    and st1: "if \<not> b then (\<exists>x. filter (key_matches post_id (Some (like_prefix user_id)))
                              (interactions s1) = [x])
          else filter (key_matches post_id (Some (like_prefix user_id)))
                    (interactions s1) = []"
    by blast
  show ?case
  proof (cases k)
    case 0
    then show ?thesis
      using t p1 c1 by auto
  next
    case (Suc j)
    then have j: "j < length clock"
      using Cons.prems(4) by simp
    from Cons.IH [OF nf1 p1 st1 j]
    show ?thesis
      using Suc t c1 by auto
  qed
qed


lemma length_toggle_like_run:
  "length (toggle_like_run user_id post_id clock s) = length clock"
  by (induction clock arbitrary: s) simp_all

lemma no_like_found:
  assumes own: "\<forall>i \<in> set (interactions s). \<not> like_of post_id user_id i"
    and others: "\<forall>i \<in> set (interactions s).
                   key_matches post_id (Some (like_prefix user_id)) i \<longrightarrow>
                   like_of post_id user_id i"
  shows "filter (key_matches post_id (Some (like_prefix user_id))) (interactions s) = []"
  using own others by (auto simp: filter_empty_conv)

text \<open>
  Claim C1, amended.  Take a store that answers, an existing post and a user of whom the
  store holds no like on that post, and let no other interaction of the post have an
  \<^verbatim>\<open>interaction_id\<close> that begins with \<^verbatim>\<open>like#{user_id}#\<close>, the prefix by which
  \<^verbatim>\<open>toggle_like\<close> looks the user's like up.  Let the user call \<^verbatim>\<open>toggle_like\<close> once per
  clock reading of \<open>clock\<close>.  Then the \<open>n\<close>-th call returns \<^verbatim>\<open>liked\<close> exactly when \<open>n\<close> is
  odd; it moves the stored \<^verbatim>\<open>likes_count\<close> of the post by \<open>+1\<close> when it likes and by
  \<open>-1\<close> when it unlikes, and returns the count it leaves; and after an even number of
  calls the count is the initial one.
\<close>

theorem toggle_like_alternates:
  assumes nf: "faults s = []"
    and post: "stored_post s post_id = Some post"
    and own: "\<forall>i \<in> set (interactions s). \<not> like_of post_id user_id i"
    and others: "\<forall>i \<in> set (interactions s).
                   key_matches post_id (Some (like_prefix user_id)) i \<longrightarrow>
                   like_of post_id user_id i"
    and n: "1 \<le> n" "n \<le> length clock"
  shows "\<exists>res before after.
      fst (toggle_like_run user_id post_id clock s ! (n - 1)) = Inr res
      \<and> tl_liked res = odd n
      \<and> stored_post (toggle_like_states user_id post_id clock s ! (n - 1)) post_id = Some before
      \<and> stored_post (toggle_like_states user_id post_id clock s ! n) post_id = Some after
      \<and> p_likes_count after = p_likes_count before + (if tl_liked res then 1 else - 1)
      \<and> tl_likes_count res = p_likes_count after
      \<and> (even n \<longrightarrow> p_likes_count after = p_likes_count post)"
proof -
  let ?run = "toggle_like_run user_id post_id clock s"
  let ?states = "toggle_like_states user_id post_id clock s"
  note len = length_toggle_like_run
  have st: "if False then (\<exists>x. filter (key_matches post_id (Some (like_prefix user_id)))
                              (interactions s) = [x])
             else filter (key_matches post_id (Some (like_prefix user_id)))
                    (interactions s) = []"
    using no_like_found [OF own others] by simp
  have at: "\<exists>s' post'.
      ?run ! k = (Inr \<lparr>tl_liked = even k,
              tl_likes_count = p_likes_count post + (if even k then 1 else 0),
              tl_message = (if even k then LikeAdded else LikeRemoved)\<rparr>, s')
      \<and> stored_post s' post_id = Some post'
      \<and> p_likes_count post' = p_likes_count post + (if even k then 1 else 0)"
    if "k < length clock" for k
    using toggle_like_run_general [OF nf post st that] by (cases "even k") simp_all
  obtain m where m: "n = Suc m"
    using n(1) by (cases n) simp_all
  then have mlt: "m < length clock"
    using n(2) by simp
  from at [OF mlt] obtain s' post' where
    r: "?run ! m = (Inr \<lparr>tl_liked = even m,
              tl_likes_count = p_likes_count post + (if even m then 1 else 0),
              tl_message = (if even m then LikeAdded else LikeRemoved)\<rparr>, s')"
    and p': "stored_post s' post_id = Some post'"
    and c': "p_likes_count post' = p_likes_count post + (if even m then 1 else 0)"
    by blast
  have after: "?states ! n = s'"
    using m mlt r by (simp add: toggle_like_states_def len)
  have "\<exists>before. stored_post (?states ! m) post_id = Some before
          \<and> p_likes_count before = p_likes_count post + (if even m then 0 else 1)"
  proof (cases m)
    case 0
    then show ?thesis
      using post by (simp add: toggle_like_states_def)
  next
    case (Suc j)
    then have "j < length clock"
      using mlt by simp
    from at [OF this] obtain s0 post0 where
      "?run ! j = (Inr \<lparr>tl_liked = even j,
              tl_likes_count = p_likes_count post + (if even j then 1 else 0),
              tl_message = (if even j then LikeAdded else LikeRemoved)\<rparr>, s0)"
      and "stored_post s0 post_id = Some post0"
      and "p_likes_count post0 = p_likes_count post + (if even j then 1 else 0)"
      by blast
    then show ?thesis
      using Suc mlt by (simp add: toggle_like_states_def len)
  qed
  then obtain before where
    b: "stored_post (?states ! m) post_id = Some before"
    and cb: "p_likes_count before = p_likes_count post + (if even m then 0 else 1)"
    by blast
  show ?thesis
    using r p' c' after b cb m by (auto simp: m)
qed

theorem toggle_like_alternates_witness:
  "faults bob_liked_store = []
   \<and> stored_post bob_liked_store ''p1'' = Some (photo\<lparr>p_likes_count := 1\<rparr>)
   \<and> map i_interaction_id (interactions bob_liked_store) = [''like#u2#2024-05-02T08:00:00'']
   \<and> (\<exists>res before after.
      fst (toggle_like_run ''u1'' ''p1''
             [''2024-05-02T08:00:01'', ''2024-05-02T08:00:02'', ''2024-05-02T08:00:03'']
             bob_liked_store ! 1) = Inr res
      \<and> tl_liked res = False
      \<and> stored_post (toggle_like_states ''u1'' ''p1''
             [''2024-05-02T08:00:01'', ''2024-05-02T08:00:02'', ''2024-05-02T08:00:03'']
             bob_liked_store ! 1) ''p1'' = Some before
      \<and> stored_post (toggle_like_states ''u1'' ''p1''
             [''2024-05-02T08:00:01'', ''2024-05-02T08:00:02'', ''2024-05-02T08:00:03'']
             bob_liked_store ! 2) ''p1'' = Some after
      \<and> p_likes_count after = p_likes_count before - 1
      \<and> tl_likes_count res = p_likes_count after
      \<and> p_likes_count after = 1)"
proof -
  have f: "faults bob_liked_store = []"
    by code_simp
  have p: "stored_post bob_liked_store ''p1'' = Some (photo\<lparr>p_likes_count := 1\<rparr>)"
    by code_simp
  have i: "interactions bob_liked_store =
             [Interaction_init ''p1'' ''u2'' ''like'' None ''2024-05-02T08:00:00'']"
    by code_simp
  have ids: "map i_interaction_id (interactions bob_liked_store)
               = [''like#u2#2024-05-02T08:00:00'']"
    by (simp add: i Interaction_init_def)
  have own: "\<forall>i \<in> set (interactions bob_liked_store). \<not> like_of ''p1'' ''u1'' i"
    by (simp add: i Interaction_init_def like_of_def)
  have others: "\<forall>i \<in> set (interactions bob_liked_store).
                   key_matches ''p1'' (Some (like_prefix ''u1'')) i \<longrightarrow> like_of ''p1'' ''u1'' i"
    by (simp add: i Interaction_init_def key_matches_def like_prefix_def)
  have c: "p_likes_count (photo\<lparr>p_likes_count := 1\<rparr>) = 1"
    by simp
  show ?thesis
    using f p ids c
      toggle_like_alternates [OF f p own others, of 2
        "[''2024-05-02T08:00:01'', ''2024-05-02T08:00:02'', ''2024-05-02T08:00:03'']"]
    by auto
qed

text \<open>
  Claim C1 as stated, for a user without a like on the post and nothing more, fails for
  the user id \<^verbatim>\<open>a\<close> on a store whose only interaction is the like of the user \<^verbatim>\<open>a#b\<close>:
  the id \<^verbatim>\<open>like#a#b#...\<close> of that like begins with \<^verbatim>\<open>like#a#\<close>, so the first call of
  \<^verbatim>\<open>a\<close> finds it, returns not liked with the count 0 and deletes the other user's like.
\<close>

theorem toggle_like_alternates_counterexample:
  "faults foreign_like_store = []
   \<and> stored_post foreign_like_store ''p1'' = Some (photo\<lparr>p_likes_count := 1\<rparr>)
   \<and> map i_user_id (interactions foreign_like_store) = [''a#b'']
   \<and> map i_interaction_id (interactions foreign_like_store) = [''like#a#b#2024-05-02T08:00:01'']
   \<and> filter (like_of ''p1'' ''a'') (interactions foreign_like_store) = []
   \<and> toggle_like_run ''a'' ''p1'' [''2024-05-02T08:00:02''] foreign_like_store =
       [(Inr \<lparr>tl_liked = False, tl_likes_count = 0, tl_message = LikeRemoved\<rparr>,
         prefix_ids_store)]"
  by code_simp

subsection \<open>Two users liking one post\<close>

lemma get_user_like_status_nofault:
  assumes "faults s = []"
  shows "get_user_like_status user_id post_id s =
     (Inr (filter (key_matches post_id (Some (like_prefix user_id))) (interactions s) \<noteq> []), s)"
proof -
  have "(case xs of [] \<Rightarrow> None | item # _ \<Rightarrow> Some (item\<lparr>i_content := None\<rparr>)) \<noteq> None
        \<longleftrightarrow> xs \<noteq> []" for xs :: "interaction list"
    by (cases xs) simp_all
  then show ?thesis
    using query_first_empty_iff [of "interactions s" post_id "Some (like_prefix user_id)"]
    by (simp add: get_user_like_status_def op_catch_def op_bind_def op_return_def
        Interaction_get_user_like_nofault [OF assms])
qed

lemma hash_free_prefix:
  assumes "CHR ''#'' \<notin> set a" "CHR ''#'' \<notin> set b" "prefix (a @ ''#'') (b @ ''#'' @ t)"
  shows "a = b"
  using assms
proof (induction a arbitrary: b)
  case Nil
  then show ?case by (cases b) auto
next
  case (Cons x xs)
  then show ?case by (cases b) auto
qed

lemma other_like_not_matched:
  assumes "CHR ''#'' \<notin> set a" "CHR ''#'' \<notin> set b" "a \<noteq> b"
  shows "\<not> key_matches post_id (Some (like_prefix a))
             (Interaction_init post_id b ''like'' c now)"
  using hash_free_prefix [OF assms(1) assms(2), of now] assms(3)
  by (auto simp: key_matches_def like_prefix_def Interaction_init_def)

lemma filter_swap: "filter P (filter Q xs) = filter Q (filter P xs)"
  by (simp add: conj_commute)

text \<open>
  Claim C5, amended.  Let two distinct users whose ids contain no \<^verbatim>\<open>#\<close> act on an existing
  post with \<^verbatim>\<open>likes_count = 0\<close> and no likes, of which no interaction has an
  \<^verbatim>\<open>interaction_id\<close> that begins with \<^verbatim>\<open>like#{user_id}#\<close> for either of the two user
  ids unless it is a like of that user, the store answering.  Then \<^verbatim>\<open>toggle_like\<close> by the
  first, by the second and again by the first return liked with count 1, liked with
  count 2 and not liked with count 1; afterwards the like status of the first user is
  false and that of the second is true, as it was before the first user's unlike.
\<close>

theorem like_isolation:
  assumes nf: "faults s = []"
    and post: "stored_post s post_id = Some post"
    and zero: "p_likes_count post = 0"
    and ab: "user_a \<noteq> user_b"
    and ha: "CHR ''#'' \<notin> set user_a"
    and hb: "CHR ''#'' \<notin> set user_b"
    and nolikes: "\<forall>i \<in> set (interactions s).
                    \<not> (i_post_id i = post_id \<and> i_interaction_type i = ''like'')"
    and oa: "\<forall>i \<in> set (interactions s).
               key_matches post_id (Some (like_prefix user_a)) i \<longrightarrow> like_of post_id user_a i"
    and ob: "\<forall>i \<in> set (interactions s).
               key_matches post_id (Some (like_prefix user_b)) i \<longrightarrow> like_of post_id user_b i"
    and s1: "s1 = snd (toggle_like user_a post_id t1 s)"
    and s2: "s2 = snd (toggle_like user_b post_id t2 s1)"
    and s3: "s3 = snd (toggle_like user_a post_id t3 s2)"
  shows "fst (toggle_like user_a post_id t1 s)
           = Inr \<lparr>tl_liked = True, tl_likes_count = 1, tl_message = LikeAdded\<rparr>
       \<and> fst (toggle_like user_b post_id t2 s1)
           = Inr \<lparr>tl_liked = True, tl_likes_count = 2, tl_message = LikeAdded\<rparr>
       \<and> fst (toggle_like user_a post_id t3 s2)
           = Inr \<lparr>tl_liked = False, tl_likes_count = 1, tl_message = LikeRemoved\<rparr>
       \<and> fst (get_user_like_status user_b post_id s2) = Inr True
       \<and> fst (get_user_like_status user_a post_id s3) = Inr False
       \<and> fst (get_user_like_status user_b post_id s3) = Inr True"
proof -
  let ?ka = "key_matches post_id (Some (like_prefix user_a))"
  let ?kb = "key_matches post_id (Some (like_prefix user_b))"
  let ?la = "Interaction_init post_id user_a ''like'' None t1"
  let ?lb = "Interaction_init post_id user_b ''like'' None t2"
  let ?bump = "\<lambda>d p. if p_post_id p = post_id
                then p\<lparr>p_likes_count := p_likes_count p + d,
                       p_comments_count := p_comments_count p + 0\<rparr>
                else p"
  have pid: "p_post_id post = post_id"
    using post by (rule stored_post_id)
  have "\<forall>i \<in> set (interactions s). \<not> like_of post_id user_a i"
    and "\<forall>i \<in> set (interactions s). \<not> like_of post_id user_b i"
    using nolikes by (auto simp: like_of_def)
  then have a0: "filter ?ka (interactions s) = []"
    and b0: "filter ?kb (interactions s) = []"
    using oa ob by (auto intro: no_like_found)
  have la_a: "?ka ?la" and lb_b: "?kb ?lb"
    by (rule like_key_matches)+
  have la_b: "\<not> ?kb ?la"
    using ab by (intro other_like_not_matched [OF hb ha]) simp
  have lb_a: "\<not> ?ka ?lb"
    by (rule other_like_not_matched [OF ha hb ab])
  \<comment> \<open>first call: \<open>user_a\<close> likes\<close>
  have t1: "toggle_like user_a post_id t1 s =
      (Inr \<lparr>tl_liked = True, tl_likes_count = p_likes_count post + 1, tl_message = LikeAdded\<rparr>,
       s\<lparr>interactions := ?la # interactions s, posts := map (?bump 1) (posts s)\<rparr>)"
    by (rule toggle_like_adds [OF nf post a0])
  then have s1': "s1 = s\<lparr>interactions := ?la # interactions s, posts := map (?bump 1) (posts s)\<rparr>"
    by (simp add: s1)
  have nf1: "faults s1 = []"
    by (simp add: s1' nf)
  have "stored_post s1 post_id = map_option (?bump 1) (stored_post s post_id)"
    by (rule stored_post_bumped) (simp add: s1')
  then have p1: "stored_post s1 post_id = Some (?bump 1 post)"
    by (simp add: post)
  have a1: "filter ?ka (interactions s1) = [?la]"
    using la_a a0 by (simp add: s1')
  have b1: "filter ?kb (interactions s1) = []"
    using la_b b0 by (simp add: s1')
  \<comment> \<open>second call: \<open>user_b\<close> likes\<close>
  have t2: "toggle_like user_b post_id t2 s1 =
      (Inr \<lparr>tl_liked = True, tl_likes_count = p_likes_count (?bump 1 post) + 1,
            tl_message = LikeAdded\<rparr>,
       s1\<lparr>interactions := ?lb # interactions s1, posts := map (?bump 1) (posts s1)\<rparr>)"
    by (rule toggle_like_adds [OF nf1 p1 b1])
  then have s2': "s2 = s1\<lparr>interactions := ?lb # interactions s1,
                           posts := map (?bump 1) (posts s1)\<rparr>"
    by (simp add: s2)
  have nf2: "faults s2 = []"
    by (simp add: s2' nf1)
  have "stored_post s2 post_id = map_option (?bump 1) (stored_post s1 post_id)"
    by (rule stored_post_bumped) (simp add: s2')
  then have p2: "stored_post s2 post_id = Some (?bump 1 (?bump 1 post))"
    by (simp add: p1)
  have a2: "filter ?ka (interactions s2) = [?la]"
    using lb_a a1 by (simp add: s2')
  have b2: "filter ?kb (interactions s2) = [?lb]"
    using lb_b b1 by (simp add: s2')
  \<comment> \<open>third call: \<open>user_a\<close> unlikes\<close>
  have t3: "toggle_like user_a post_id t3 s2 =
      (Inr \<lparr>tl_liked = False, tl_likes_count = p_likes_count (?bump 1 (?bump 1 post)) + (- 1),
            tl_message = LikeRemoved\<rparr>,
       s2\<lparr>interactions := filter (\<lambda>i. \<not> (i_post_id i = post_id
                                       \<and> i_interaction_id i = i_interaction_id ?la))
                          (interactions s2),
          posts := map (?bump (- 1)) (posts s2)\<rparr>)"
    by (rule toggle_like_removes [OF nf2 p2 a2])
  then have s3': "s3 = s2\<lparr>interactions := filter (\<lambda>i. \<not> (i_post_id i = post_id
                                       \<and> i_interaction_id i = i_interaction_id ?la))
                          (interactions s2),
          posts := map (?bump (- 1)) (posts s2)\<rparr>"
    by (simp add: s3)
  have nf3: "faults s3 = []"
    by (simp add: s3' nf2)
  have la_key: "i_post_id ?la = post_id"
    by (simp add: Interaction_init_def)
  have "filter ?ka (interactions s3) =
        filter (\<lambda>i. \<not> (i_post_id i = post_id \<and> i_interaction_id i = i_interaction_id ?la))
          (filter ?ka (interactions s2))"
    by (simp add: s3' filter_swap [of ?ka] del: filter_filter)
  also have "\<dots> = []"
    using la_key by (simp add: a2)
  finally have a3: "filter ?ka (interactions s3) = []" .
  have differ: "i_interaction_id ?lb \<noteq> i_interaction_id ?la"
    using la_a lb_a by (auto simp: key_matches_def Interaction_init_def)
  have "filter ?kb (interactions s3) =
        filter (\<lambda>i. \<not> (i_post_id i = post_id \<and> i_interaction_id i = i_interaction_id ?la))
          (filter ?kb (interactions s2))"
    by (simp add: s3' filter_swap [of ?kb] del: filter_filter)
  also have "\<dots> = [?lb]"
    using differ by (simp add: b2)
  finally have b3: "filter ?kb (interactions s3) = [?lb]" .
  show ?thesis
    using zero pid
    by (simp add: t1 t2 t3 s1 [symmetric] s2 [symmetric]
        get_user_like_status_nofault nf2 nf3 a3 b3 b2)
qed

theorem like_isolation_witness:
  "faults once_commented_store = []
   \<and> stored_post once_commented_store ''p1'' = Some (photo\<lparr>p_comments_count := 1\<rparr>)
   \<and> p_likes_count (photo\<lparr>p_comments_count := 1\<rparr>) = 0
   \<and> ''u1'' \<noteq> ''u2'' \<and> CHR ''#'' \<notin> set ''u1'' \<and> CHR ''#'' \<notin> set ''u2''
   \<and> map i_interaction_id (interactions once_commented_store)
        = [''comment#u1#2024-05-02T08:00:00'']
   \<and> map i_interaction_type (interactions once_commented_store) = [''comment'']
   \<and> fst (toggle_like ''u1'' ''p1'' ''2024-05-02T08:00:01'' once_commented_store)
        = Inr \<lparr>tl_liked = True, tl_likes_count = 1, tl_message = LikeAdded\<rparr>
   \<and> fst (toggle_like ''u2'' ''p1'' ''2024-05-02T08:00:02''
             (snd (toggle_like ''u1'' ''p1'' ''2024-05-02T08:00:01'' once_commented_store)))
        = Inr \<lparr>tl_liked = True, tl_likes_count = 2, tl_message = LikeAdded\<rparr>
   \<and> fst (toggle_like ''u1'' ''p1'' ''2024-05-02T08:00:03''
             (snd (toggle_like ''u2'' ''p1'' ''2024-05-02T08:00:02''
               (snd (toggle_like ''u1'' ''p1'' ''2024-05-02T08:00:01'' once_commented_store)))))
        = Inr \<lparr>tl_liked = False, tl_likes_count = 1, tl_message = LikeRemoved\<rparr>
   \<and> fst (get_user_like_status ''u2'' ''p1''
             (snd (toggle_like ''u2'' ''p1'' ''2024-05-02T08:00:02''
               (snd (toggle_like ''u1'' ''p1'' ''2024-05-02T08:00:01'' once_commented_store)))))
        = Inr True
   \<and> fst (get_user_like_status ''u1'' ''p1''
        (snd (toggle_like ''u1'' ''p1'' ''2024-05-02T08:00:03''
             (snd (toggle_like ''u2'' ''p1'' ''2024-05-02T08:00:02''
               (snd (toggle_like ''u1'' ''p1'' ''2024-05-02T08:00:01''
                      once_commented_store))))))) = Inr False
   \<and> fst (get_user_like_status ''u2'' ''p1''
        (snd (toggle_like ''u1'' ''p1'' ''2024-05-02T08:00:03''
             (snd (toggle_like ''u2'' ''p1'' ''2024-05-02T08:00:02''
               (snd (toggle_like ''u1'' ''p1'' ''2024-05-02T08:00:01''
                      once_commented_store))))))) = Inr True"
proof -
  have f: "faults once_commented_store = []"
    by code_simp
  have p: "stored_post once_commented_store ''p1'' = Some (photo\<lparr>p_comments_count := 1\<rparr>)"
    by code_simp
  have z: "p_likes_count (photo\<lparr>p_comments_count := 1\<rparr>) = 0"
    by (simp add: photo_def)
  have i: "interactions once_commented_store =
             [Interaction_init ''p1'' ''u1'' ''comment'' (Some ''hello'') ''2024-05-02T08:00:00'']"
    by code_simp
  have ids: "map i_interaction_id (interactions once_commented_store)
        = [''comment#u1#2024-05-02T08:00:00'']"
    and tys: "map i_interaction_type (interactions once_commented_store) = [''comment'']"
    by (simp_all add: i Interaction_init_def)
  have nl: "\<forall>i \<in> set (interactions once_commented_store).
                    \<not> (i_post_id i = ''p1'' \<and> i_interaction_type i = ''like'')"
    by (simp add: i Interaction_init_def)
  have oa: "\<forall>i \<in> set (interactions once_commented_store).
               key_matches ''p1'' (Some (like_prefix ''u1'')) i \<longrightarrow> like_of ''p1'' ''u1'' i"
    and ob: "\<forall>i \<in> set (interactions once_commented_store).
               key_matches ''p1'' (Some (like_prefix ''u2'')) i \<longrightarrow> like_of ''p1'' ''u2'' i"
    by (simp_all add: i Interaction_init_def key_matches_def like_prefix_def)
  have d: "''u1'' \<noteq> ''u2''" and h1: "CHR ''#'' \<notin> set ''u1''" and h2: "CHR ''#'' \<notin> set ''u2''"
    by simp_all
  show ?thesis
    using f p z d h1 h2 ids tys
      like_isolation [OF f p z d h1 h2 nl oa ob refl refl refl,
        of "''2024-05-02T08:00:01''" "''2024-05-02T08:00:02''" "''2024-05-02T08:00:03''"]
    by blast
qed

text \<open>
  Claim C5 as stated, for any two distinct users, fails for the user ids \<^verbatim>\<open>a\<close> and
  \<^verbatim>\<open>a#b\<close>: the id \<^verbatim>\<open>like#a#b#...\<close> of the second user's like begins with the prefix
  \<^verbatim>\<open>like#a#\<close> by which the first user's like is looked up, so after the three calls the
  like status of the first user is true.
\<close>

theorem like_isolation_counterexample:
  "faults prefix_ids_store = []
   \<and> stored_user prefix_ids_store ''a'' = Some carol
   \<and> stored_user prefix_ids_store ''a#b'' = Some dave
   \<and> ''a'' \<noteq> ''a#b''
   \<and> stored_post prefix_ids_store ''p1'' = Some photo
   \<and> p_likes_count photo = 0
   \<and> interactions prefix_ids_store = []
   \<and> fst (toggle_like ''a'' ''p1'' ''2024-05-02T08:00:01'' prefix_ids_store)
        = Inr \<lparr>tl_liked = True, tl_likes_count = 1, tl_message = LikeAdded\<rparr>
   \<and> fst (toggle_like ''a#b'' ''p1'' ''2024-05-02T08:00:02''
             (snd (toggle_like ''a'' ''p1'' ''2024-05-02T08:00:01'' prefix_ids_store)))
        = Inr \<lparr>tl_liked = True, tl_likes_count = 2, tl_message = LikeAdded\<rparr>
   \<and> fst (toggle_like ''a'' ''p1'' ''2024-05-02T08:00:03''
             (snd (toggle_like ''a#b'' ''p1'' ''2024-05-02T08:00:02''
               (snd (toggle_like ''a'' ''p1'' ''2024-05-02T08:00:01'' prefix_ids_store)))))
        = Inr \<lparr>tl_liked = False, tl_likes_count = 1, tl_message = LikeRemoved\<rparr>
   \<and> fst (get_user_like_status ''a'' ''p1'' shared_prefix_store) = Inr True"
  by code_simp

subsection \<open>Adding a comment\<close>

lemma Interaction_save_nofault:
  assumes "faults s = []"
  shows "Interaction_save item s =
     (Inr True,
      s\<lparr>interactions :=
          item\<lparr>i_content := (case i_content item of
                                None \<Rightarrow> None
                              | Some c \<Rightarrow> if c = [] then None else Some c)\<rparr>
          # filter (\<lambda>i. \<not> (i_post_id i = i_post_id item
                              \<and> i_interaction_id i = i_interaction_id item))
              (interactions s)\<rparr>)"
  by (simp add: Interaction_save_def op_bind_def op_return_def
      interactions_put_item_nofault [OF assms])

lemma add_comment_empty:
  "strip content = [] \<Longrightarrow>
   add_comment user_id post_id content now s = (Inl (ValidationError CommentContentRequired), s)"
  by (simp add: add_comment_def op_raise_def)

lemma add_comment_too_long:
  "strip content \<noteq> [] \<Longrightarrow> 500 < length (strip content) \<Longrightarrow>
   add_comment user_id post_id content now s = (Inl (ValidationError CommentTooLong), s)"
  by (auto simp: add_comment_def op_raise_def strip_def)

lemma strip_Nil [simp]: "strip [] = []"
  by (simp add: strip_def)

lemma add_comment_unknown_post:
  "faults s = [] \<Longrightarrow> strip content \<noteq> [] \<Longrightarrow> length (strip content) \<le> 500 \<Longrightarrow>
   stored_post s post_id = None \<Longrightarrow>
   add_comment user_id post_id content now s = (Inl (NotFoundError PostNotFound), s)"
  by (auto simp: add_comment_def op_raise_def op_bind_def Post_get_by_id_nofault)

lemma add_comment_unknown_user:
  "faults s = [] \<Longrightarrow> strip content \<noteq> [] \<Longrightarrow> length (strip content) \<le> 500 \<Longrightarrow>
   stored_post s post_id = Some post \<Longrightarrow> stored_user s user_id = None \<Longrightarrow>
   add_comment user_id post_id content now s = (Inl (NotFoundError UserNotFound), s)"
  by (auto simp: add_comment_def op_raise_def op_bind_def Post_get_by_id_nofault
      User_get_by_id_nofault)

lemma add_comment_valid:
  assumes nf: "faults s = []"
    and ne: "strip content \<noteq> []"
    and len: "length (strip content) \<le> 500"
    and post: "stored_post s post_id = Some post"
    and user: "stored_user s user_id = Some user"
  shows "add_comment user_id post_id content now s =
    (Inr \<lparr>ac_comment =
            \<lparr>cd_interaction_id = ''comment#'' @ user_id @ ''#'' @ now,
             cd_post_id = post_id,
             cd_user_id = user_id,
             cd_username = u_username user,
             cd_content = Some (strip content),
             cd_created_at = now\<rparr>,
          ac_comments_count = p_comments_count post + 1,
          ac_message = CommentPosted\<rparr>,
     s\<lparr>interactions :=
         \<lparr>i_post_id = post_id,
          i_interaction_id = ''comment#'' @ user_id @ ''#'' @ now,
          i_user_id = user_id,
          i_interaction_type = ''comment'',
          i_content = Some (strip content),
          i_created_at = now\<rparr>
         # filter (\<lambda>i. \<not> (i_post_id i = post_id
                          \<and> i_interaction_id i = ''comment#'' @ user_id @ ''#'' @ now))
             (interactions s),
        posts := map (\<lambda>p. if p_post_id p = post_id
                            then p\<lparr>p_likes_count := p_likes_count p + 0,
                                   p_comments_count := p_comments_count p + 1\<rparr>
                            else p) (posts s)\<rparr>)"
proof -
  have pid: "p_post_id post = post_id"
    using post by (rule stored_post_id)
  have c: "content \<noteq> []"
    using ne by auto
  show ?thesis
    using ne len c
    by (simp add: add_comment_def Let_def op_bind_def op_return_def Post_get_by_id_nofault [OF nf]
        User_get_by_id_nofault [OF nf] post user Interaction_save_nofault [OF nf]
        Post_update_counts_nofault nf pid Interaction_init_def)
qed

text \<open>
  Claim C2.  On a store that answers, \<^verbatim>\<open>add_comment\<close> checks in this order: content that
  is empty after trimming raises \<^verbatim>\<open>ValidationError\<close>; otherwise a trimmed length above
  500 raises \<^verbatim>\<open>ValidationError\<close>; otherwise a \<^verbatim>\<open>post_id\<close> without a stored post raises
  \<^verbatim>\<open>NotFoundError\<close>; otherwise a \<^verbatim>\<open>user_id\<close> without a stored user raises
  \<^verbatim>\<open>NotFoundError\<close>.  In each of these cases the store is left as it was.  Otherwise,
  for a trimmed length of 500 too, the call returns a value.
\<close>

theorem add_comment_rejections:
  assumes "faults s = []"
  shows "(strip content = [] \<longrightarrow>
            add_comment user_id post_id content now s
              = (Inl (ValidationError CommentContentRequired), s))
       \<and> (strip content \<noteq> [] \<and> 500 < length (strip content) \<longrightarrow>
            add_comment user_id post_id content now s
              = (Inl (ValidationError CommentTooLong), s))
       \<and> (strip content \<noteq> [] \<and> length (strip content) \<le> 500
            \<and> stored_post s post_id = None \<longrightarrow>
            add_comment user_id post_id content now s
              = (Inl (NotFoundError PostNotFound), s))
       \<and> (strip content \<noteq> [] \<and> length (strip content) \<le> 500
            \<and> stored_post s post_id \<noteq> None \<and> stored_user s user_id = None \<longrightarrow>
            add_comment user_id post_id content now s
              = (Inl (NotFoundError UserNotFound), s))
       \<and> (strip content \<noteq> [] \<and> length (strip content) \<le> 500
            \<and> stored_post s post_id \<noteq> None \<and> stored_user s user_id \<noteq> None \<longrightarrow>
            (\<exists>r s'. add_comment user_id post_id content now s = (Inr r, s')))"
proof (intro conjI impI)
  assume "strip content = []"
  then show "add_comment user_id post_id content now s
              = (Inl (ValidationError CommentContentRequired), s)"
    by (rule add_comment_empty)
next
  assume "strip content \<noteq> [] \<and> 500 < length (strip content)"
  then show "add_comment user_id post_id content now s
              = (Inl (ValidationError CommentTooLong), s)"
    by (simp add: add_comment_too_long)
next
  assume "strip content \<noteq> [] \<and> length (strip content) \<le> 500
            \<and> stored_post s post_id = None"
  then show "add_comment user_id post_id content now s
              = (Inl (NotFoundError PostNotFound), s)"
    by (simp add: add_comment_unknown_post [OF assms])
next
  assume a: "strip content \<noteq> [] \<and> length (strip content) \<le> 500
            \<and> stored_post s post_id \<noteq> None \<and> stored_user s user_id = None"
  then obtain post where "stored_post s post_id = Some post"
    by auto
  then show "add_comment user_id post_id content now s
              = (Inl (NotFoundError UserNotFound), s)"
    using a by (simp add: add_comment_unknown_user [OF assms])
next
  assume a: "strip content \<noteq> [] \<and> length (strip content) \<le> 500
            \<and> stored_post s post_id \<noteq> None \<and> stored_user s user_id \<noteq> None"
  then obtain post user where
    "stored_post s post_id = Some post" "stored_user s user_id = Some user"
    by auto
  then show "\<exists>r s'. add_comment user_id post_id content now s = (Inr r, s')"
    using a add_comment_valid [OF assms, of content post_id post user_id user now]
    by simp
qed

lemma strip_replicate:
  "\<not> isspace c \<Longrightarrow> strip (replicate n c) = replicate n c"
  by (simp add: strip_def dropWhile_replicate)

theorem add_comment_rejections_witness:
  "add_comment ''u1'' ''p1'' [CHR '' '', CHR 0x0A, CHR 0x09, CHR '' ''] ''2024-05-02T08:00:00''
      small_store = (Inl (ValidationError CommentContentRequired), small_store)
   \<and> add_comment ''nobody'' ''nonexistent_post'' [] ''2024-05-02T08:00:00'' small_store
        = (Inl (ValidationError CommentContentRequired), small_store)
   \<and> add_comment ''u1'' ''p1'' (replicate 501 CHR ''a'') ''2024-05-02T08:00:00'' small_store
        = (Inl (ValidationError CommentTooLong), small_store)
   \<and> add_comment ''nobody'' ''nonexistent_post'' (replicate 501 CHR ''a'')
        ''2024-05-02T08:00:00'' small_store
        = (Inl (ValidationError CommentTooLong), small_store)
   \<and> add_comment ''nobody'' ''nonexistent_post'' ''Test comment'' ''2024-05-02T08:00:00''
        small_store = (Inl (NotFoundError PostNotFound), small_store)
   \<and> add_comment ''nobody'' ''p1'' ''Test comment'' ''2024-05-02T08:00:00'' small_store
        = (Inl (NotFoundError UserNotFound), small_store)
   \<and> (\<exists>r s'. add_comment ''u1'' ''p1'' (replicate 500 CHR ''a'') ''2024-05-02T08:00:00''
                small_store = (Inr r, s'))"
proof -
  have f: "faults small_store = []"
    by (simp add: small_store_def)
  have a: "\<not> isspace CHR ''a''"
    by (simp add: isspace_def)
  have ws: "strip [CHR '' '', CHR 0x0A, CHR 0x09, CHR '' ''] = []"
    by (simp add: strip_def isspace_def)
  have tc: "strip ''Test comment'' = ''Test comment''"
    by (simp add: strip_def isspace_def)
  have p1: "stored_post small_store ''p1'' = Some photo"
    and p0: "stored_post small_store ''nonexistent_post'' = None"
    by (simp_all add: small_store_def stored_post_def photo_def)
  have u1: "stored_user small_store ''u1'' = Some alice"
    and u0: "stored_user small_store ''nobody'' = None"
    by (simp_all add: small_store_def stored_user_def alice_def bob_def)
  note r = add_comment_rejections [OF f]
  show ?thesis
    using r [of "[CHR '' '', CHR 0x0A, CHR 0x09, CHR '' '']" "''u1''" "''p1''"]
      r [of "[]" "''nobody''" "''nonexistent_post''"]
      r [of "replicate 501 CHR ''a''" "''u1''" "''p1''"]
      r [of "replicate 501 CHR ''a''" "''nobody''" "''nonexistent_post''"]
      r [of "''Test comment''" "''nobody''" "''nonexistent_post''"]
      r [of "''Test comment''" "''nobody''" "''p1''"]
      r [of "replicate 500 CHR ''a''" "''u1''" "''p1''"]
    by (simp add: ws tc strip_replicate [OF a] p1 p0 u1 u0)
qed

text \<open>
  Claim C4, amended.  For non-empty trimmed content of at most 500 characters, an existing
  post and an existing user, on a store that answers and holds no interaction of the post
  under the id \<^verbatim>\<open>comment#{user_id}#{now}\<close> of the new comment, \<^verbatim>\<open>add_comment\<close> adds
  exactly one interaction to the stored ones, of type \<^verbatim>\<open>comment\<close> and with the trimmed
  content, moves \<^verbatim>\<open>comments_count\<close> of the post up by one and returns the comment with
  the \<^verbatim>\<open>username\<close> of the stored user and the new count.
\<close>

theorem add_comment_creates:
  assumes nf: "faults s = []"
    and ne: "strip content \<noteq> []"
    and len: "length (strip content) \<le> 500"
    and post: "stored_post s post_id = Some post"
    and user: "stored_user s user_id = Some user"
    and fresh: "(post_id, ''comment#'' @ user_id @ ''#'' @ now)
                  \<notin> (\<lambda>i. (i_post_id i, i_interaction_id i)) ` set (interactions s)"
  shows "\<exists>s'. add_comment user_id post_id content now s =
           (Inr \<lparr>ac_comment =
                   \<lparr>cd_interaction_id = ''comment#'' @ user_id @ ''#'' @ now,
                    cd_post_id = post_id,
                    cd_user_id = user_id,
                    cd_username = u_username user,
                    cd_content = Some (strip content),
                    cd_created_at = now\<rparr>,
                 ac_comments_count = p_comments_count post + 1,
                 ac_message = CommentPosted\<rparr>, s')
         \<and> interactions s' =
               \<lparr>i_post_id = post_id,
                i_interaction_id = ''comment#'' @ user_id @ ''#'' @ now,
                i_user_id = user_id,
                i_interaction_type = ''comment'',
                i_content = Some (strip content),
                i_created_at = now\<rparr> # interactions s
         \<and> stored_post s' post_id
               = Some (post\<lparr>p_comments_count := p_comments_count post + 1\<rparr>)
         \<and> users s' = users s"
proof -
  let ?s' = "s\<lparr>interactions :=
         \<lparr>i_post_id = post_id,
          i_interaction_id = ''comment#'' @ user_id @ ''#'' @ now,
          i_user_id = user_id,
          i_interaction_type = ''comment'',
          i_content = Some (strip content),
          i_created_at = now\<rparr>
         # filter (\<lambda>i. \<not> (i_post_id i = post_id
                          \<and> i_interaction_id i = ''comment#'' @ user_id @ ''#'' @ now))
             (interactions s),
        posts := map (\<lambda>p. if p_post_id p = post_id
                            then p\<lparr>p_likes_count := p_likes_count p + 0,
                                   p_comments_count := p_comments_count p + 1\<rparr>
                            else p) (posts s)\<rparr>"
  have "\<forall>i \<in> set (interactions s).
          \<not> (i_post_id i = post_id
             \<and> i_interaction_id i = ''comment#'' @ user_id @ ''#'' @ now)"
    using fresh by force
  then have keep: "filter (\<lambda>i. \<not> (i_post_id i = post_id
                          \<and> i_interaction_id i = ''comment#'' @ user_id @ ''#'' @ now))
             (interactions s) = interactions s"
    by (simp add: filter_id_conv)
  have "stored_post ?s' post_id =
          map_option (\<lambda>p. if p_post_id p = post_id
                            then p\<lparr>p_likes_count := p_likes_count p + 0,
                                   p_comments_count := p_comments_count p + 1\<rparr>
                            else p) (stored_post s post_id)"
    by (rule stored_post_bumped) simp
  then have p': "stored_post ?s' post_id
               = Some (post\<lparr>p_comments_count := p_comments_count post + 1\<rparr>)"
    using stored_post_id [OF post] by (simp add: post)
  have i': "interactions ?s' =
               \<lparr>i_post_id = post_id,
                i_interaction_id = ''comment#'' @ user_id @ ''#'' @ now,
                i_user_id = user_id,
                i_interaction_type = ''comment'',
                i_content = Some (strip content),
                i_created_at = now\<rparr> # interactions s"
    using keep by simp
  have u': "users ?s' = users s"
    by simp
  from add_comment_valid [OF nf ne len post user, of now] i' p' u'
  show ?thesis
    by blast
qed

theorem add_comment_creates_witness:
  "faults small_store = []
   \<and> strip ''  hello world  '' = ''hello world''
   \<and> stored_post small_store ''p1'' = Some photo
   \<and> stored_user small_store ''u1'' = Some alice
   \<and> (''p1'', ''comment#u1#2024-05-02T08:00:00'')
        \<notin> (\<lambda>i. (i_post_id i, i_interaction_id i)) ` set (interactions small_store)
   \<and> (\<exists>s'. add_comment ''u1'' ''p1'' ''  hello world  '' ''2024-05-02T08:00:00'' small_store =
           (Inr \<lparr>ac_comment =
                   \<lparr>cd_interaction_id = ''comment#u1#2024-05-02T08:00:00'',
                    cd_post_id = ''p1'',
                    cd_user_id = ''u1'',
                    cd_username = ''alice'',
                    cd_content = Some ''hello world'',
                    cd_created_at = ''2024-05-02T08:00:00''\<rparr>,
                 ac_comments_count = 1,
                 ac_message = CommentPosted\<rparr>, s')
         \<and> interactions s' =
               [\<lparr>i_post_id = ''p1'',
                i_interaction_id = ''comment#u1#2024-05-02T08:00:00'',
                i_user_id = ''u1'',
                i_interaction_type = ''comment'',
                i_content = Some ''hello world'',
                i_created_at = ''2024-05-02T08:00:00''\<rparr>]
         \<and> stored_post s' ''p1'' = Some (photo\<lparr>p_comments_count := 1\<rparr>)
         \<and> users s' = users small_store)"
proof -
  have f: "faults small_store = []"
    by (simp add: small_store_def)
  have st: "strip ''  hello world  '' = ''hello world''"
    by (simp add: strip_def isspace_def)
  have ne: "strip ''  hello world  '' \<noteq> []" and len: "length (strip ''  hello world  '') \<le> 500"
    by (simp_all add: st)
  have p: "stored_post small_store ''p1'' = Some photo"
    by (simp add: small_store_def stored_post_def photo_def)
  have u: "stored_user small_store ''u1'' = Some alice"
    by (simp add: small_store_def stored_user_def alice_def)
  have e: "interactions small_store = []"
    by (simp add: small_store_def)
  have fr: "(''p1'', ''comment#'' @ ''u1'' @ ''#'' @ ''2024-05-02T08:00:00'')
        \<notin> (\<lambda>i. (i_post_id i, i_interaction_id i)) ` set (interactions small_store)"
    by (simp add: e)
  have c: "p_comments_count photo = 0" and n: "u_username alice = ''alice''"
    by (simp_all add: photo_def alice_def)
  show ?thesis
    using f st p u add_comment_creates [OF f ne len p u fr]
    by (simp add: e c n)
qed

text \<open>
  Claim C4 as stated, for every valid input, fails when the user's earlier comment on the
  post carries the same clock reading: the new item has the id of the stored one and
  replaces it.  Here the same text is posted twice at one reading; the second call
  succeeds and counts a second comment, and the stored interactions are the ones before.
\<close>

theorem add_comment_creates_counterexample:
  "faults once_commented_store = []
   \<and> strip ''hello'' = ''hello''
   \<and> stored_post once_commented_store ''p1'' \<noteq> None
   \<and> stored_user once_commented_store ''u1'' \<noteq> None
   \<and> interactions
        (snd (add_comment ''u1'' ''p1'' ''hello'' ''2024-05-02T08:00:00'' once_commented_store))
       = interactions once_commented_store
   \<and> map_option p_comments_count (stored_post once_commented_store ''p1'') = Some 1
   \<and> map_option p_comments_count (stored_post
        (snd (add_comment ''u1'' ''p1'' ''hello'' ''2024-05-02T08:00:00'' once_commented_store))
        ''p1'') = Some 2"
  by code_simp

subsection \<open>Reading the comments of a post\<close>

lemma Interaction_get_post_interactions_nofault:
  "faults s = [] \<Longrightarrow> 1 \<le> limit \<Longrightarrow> t \<noteq> [] \<Longrightarrow>
   Interaction_get_post_interactions post_id (Some t) limit s =
     (Inr (query_items (interactions s) post_id None (Some t) limit), s)"
  by (simp add: Interaction_get_post_interactions_def interactions_query_nofault)

lemma comments_with_users_nofault:
  "faults s = [] \<Longrightarrow>
   comments_with_users cs s =
     (Inr (List.map_filter
             (\<lambda>c. map_option
                     (\<lambda>u. \<lparr>ce_interaction_id = i_interaction_id c,
                           ce_user_id = u_user_id u,
                           ce_username = u_username u,
                           ce_profile_image = u_profile_image u,
                           ce_content = i_content c,
                           ce_created_at = i_created_at c\<rparr>)
                     (stored_user s (i_user_id c))) cs), s)"
  by (induction cs)
     (simp_all add: op_return_def op_bind_def User_get_by_id_nofault List.map_filter_simps
        split: option.split)

lemma likes_with_users_nofault:
  "faults s = [] \<Longrightarrow>
   likes_with_users ls s =
     (Inr (List.map_filter
             (\<lambda>l. map_option
                     (\<lambda>u. \<lparr>le_user_id = u_user_id u,
                           le_username = u_username u,
                           le_profile_image = u_profile_image u,
                           le_created_at = i_created_at l\<rparr>)
                     (stored_user s (i_user_id l))) ls), s)"
  by (induction ls)
     (simp_all add: op_return_def op_bind_def User_get_by_id_nofault List.map_filter_simps
        split: option.split)

lemma get_post_comments_nofault:
  assumes nf: "faults s = []" and post: "stored_post s post_id = Some post" and lim: "1 \<le> limit"
  shows "\<exists>r. get_post_comments post_id limit s = (Inr r, s)"
  by (simp add: get_post_comments_def op_bind_def op_return_def Let_def
      Post_get_by_id_nofault [OF nf] post
      Interaction_get_post_interactions_nofault [OF nf lim]
      comments_with_users_nofault [OF nf])

lemma same_tables_refl: "same_tables s s"
  by (simp add: same_tables_def)

lemma same_tables_trans: "same_tables s s1 \<Longrightarrow> same_tables s1 s2 \<Longrightarrow> same_tables s s2"
  by (simp add: same_tables_def)

lemma same_tables_stored:
  "same_tables s s' \<Longrightarrow> stored_user s' = stored_user s \<and> stored_post s' = stored_post s"
  by (auto simp: same_tables_def stored_user_def stored_post_def)

lemma op_bind_valueE:
  assumes "op_bind m f s = (Inr y, s2)"
  obtains x s1 where "m s = (Inr x, s1)" and "f x s1 = (Inr y, s2)"
  using assms by (auto simp: op_bind_def split: prod.splits sum.splits)

lemma Post_get_by_id_value:
  assumes "Post_get_by_id k s = (Inr x, s')"
  shows "x = stored_post s k \<and> same_tables s s'"
  using assms
  by (auto simp: Post_get_by_id_def posts_get_item_def op_bind_def store_call_def
        same_tables_def stored_post_def split: prod.splits sum.splits list.splits if_splits)

lemma User_get_by_id_value:
  assumes "User_get_by_id k s = (Inr x, s')"
  shows "x = stored_user s k \<and> same_tables s s'"
  using assms
  by (auto simp: User_get_by_id_def users_get_item_def op_bind_def store_call_def
        same_tables_def stored_user_def split: prod.splits sum.splits list.splits if_splits)

lemma Interaction_get_post_interactions_value:
  assumes "Interaction_get_post_interactions post_id (Some t) limit s = (Inr xs, s')"
    and "t \<noteq> []"
  shows "xs = query_items (interactions s) post_id None (Some t) limit \<and> same_tables s s'"
  using assms
  by (auto simp: Interaction_get_post_interactions_def interactions_query_def op_bind_def
        op_raise_def store_call_def same_tables_def
        split: prod.splits sum.splits list.splits if_splits)

lemma comments_with_users_value:
  "comments_with_users cs s = (Inr xs, s') \<Longrightarrow>
   xs = List.map_filter
          (\<lambda>c. map_option
                  (\<lambda>u. \<lparr>ce_interaction_id = i_interaction_id c,
                        ce_user_id = u_user_id u,
                        ce_username = u_username u,
                        ce_profile_image = u_profile_image u,
                        ce_content = i_content c,
                        ce_created_at = i_created_at c\<rparr>)
                  (stored_user s (i_user_id c))) cs
   \<and> same_tables s s'"
proof (induction cs arbitrary: s xs s')
  case Nil
  then show ?case
    by (simp add: op_return_def List.map_filter_simps same_tables_refl)
next
  case (Cons c cs)
  from Cons.prems obtain u s1 ys s2 where g: "User_get_by_id (i_user_id c) s = (Inr u, s1)"
    and r: "comments_with_users cs s1 = (Inr ys, s2)"
    and fin: "op_return (case u of
                    None \<Rightarrow> ys
                  | Some user \<Rightarrow>
                      \<lparr>ce_interaction_id = i_interaction_id c,
                       ce_user_id = u_user_id user,
                       ce_username = u_username user,
                       ce_profile_image = u_profile_image user,
                       ce_content = i_content c,
                       ce_created_at = i_created_at c\<rparr> # ys) s2 = (Inr xs, s')"
    unfolding comments_with_users.simps by (elim op_bind_valueE)
  from User_get_by_id_value [OF g]
  have u: "u = stored_user s (i_user_id c)" and t1: "same_tables s s1"
    by simp_all
  from Cons.IH [OF r] have ys: "ys = List.map_filter
          (\<lambda>c. map_option
                  (\<lambda>u. \<lparr>ce_interaction_id = i_interaction_id c,
                        ce_user_id = u_user_id u,
                        ce_username = u_username u,
                        ce_profile_image = u_profile_image u,
                        ce_content = i_content c,
                        ce_created_at = i_created_at c\<rparr>)
                  (stored_user s1 (i_user_id c))) cs"
    and t2: "same_tables s1 s2"
    by simp_all
  have su: "stored_user s1 = stored_user s"
    using same_tables_stored [OF t1] by simp
  from fin have s': "s' = s2" and xs: "xs = (case u of
                    None \<Rightarrow> ys
                  | Some user \<Rightarrow>
                      \<lparr>ce_interaction_id = i_interaction_id c,
                       ce_user_id = u_user_id user,
                       ce_username = u_username user,
                       ce_profile_image = u_profile_image user,
                       ce_content = i_content c,
                       ce_created_at = i_created_at c\<rparr> # ys)"
    by (simp_all add: op_return_def)
  have "same_tables s s'"
    unfolding s' using t1 t2 by (rule same_tables_trans)
  moreover have "xs = List.map_filter
          (\<lambda>c. map_option
                  (\<lambda>u. \<lparr>ce_interaction_id = i_interaction_id c,
                        ce_user_id = u_user_id u,
                        ce_username = u_username u,
                        ce_profile_image = u_profile_image u,
                        ce_content = i_content c,
                        ce_created_at = i_created_at c\<rparr>)
                  (stored_user s (i_user_id c))) (c # cs)"
    unfolding xs ys su u by (simp add: List.map_filter_simps split: option.split)
  ultimately show ?case
    by simp
qed

lemma get_post_comments_returned:
  assumes "get_post_comments post_id limit s = (Inr r, s')"
  shows "gc_comments r =
           sort_key ce_created_at
             (List.map_filter
                (\<lambda>c. map_option
                        (\<lambda>u. \<lparr>ce_interaction_id = i_interaction_id c,
                              ce_user_id = u_user_id u,
                              ce_username = u_username u,
                              ce_profile_image = u_profile_image u,
                              ce_content = i_content c,
                              ce_created_at = i_created_at c\<rparr>)
                        (stored_user s (i_user_id c)))
                (query_items (interactions s) post_id None (Some ''comment'') limit))"
proof -
  from assms obtain po s1 where g: "Post_get_by_id post_id s = (Inr po, s1)"
    and k1: "(case po of
         None \<Rightarrow> op_raise (NotFoundError PostNotFound)
       | Some post \<Rightarrow>
           op_bind (Interaction_get_post_interactions post_id (Some ''comment'') limit)
             (\<lambda>comments.
           op_bind (comments_with_users comments) (\<lambda>comments_with_users.
             (let sorted_comments = sort_key ce_created_at comments_with_users
              in op_return \<lparr>gc_comments = sorted_comments,
                            gc_comments_count = length sorted_comments,
                            gc_total_comments = p_comments_count post\<rparr>)))) s1 = (Inr r, s')"
    unfolding get_post_comments_def by (elim op_bind_valueE)
  from Post_get_by_id_value [OF g] have t1: "same_tables s s1"
    by simp
  from k1 obtain post where po: "po = Some post"
    by (cases po) (simp_all add: op_raise_def)
  from k1 obtain cs s2 xs s3 where
    q: "Interaction_get_post_interactions post_id (Some ''comment'') limit s1 = (Inr cs, s2)"
    and w: "comments_with_users cs s2 = (Inr xs, s3)"
    and fin: "(let sorted_comments = sort_key ce_created_at xs
              in op_return \<lparr>gc_comments = sorted_comments,
                            gc_comments_count = length sorted_comments,
                            gc_total_comments = p_comments_count post\<rparr>) s3 = (Inr r, s')"
    unfolding po option.case by (elim op_bind_valueE)
  from Interaction_get_post_interactions_value [OF q]
  have cs: "cs = query_items (interactions s1) post_id None (Some ''comment'') limit"
    and t2: "same_tables s1 s2"
    by simp_all
  from comments_with_users_value [OF w]
  have xs: "xs = List.map_filter
          (\<lambda>c. map_option
                  (\<lambda>u. \<lparr>ce_interaction_id = i_interaction_id c,
                        ce_user_id = u_user_id u,
                        ce_username = u_username u,
                        ce_profile_image = u_profile_image u,
                        ce_content = i_content c,
                        ce_created_at = i_created_at c\<rparr>)
                  (stored_user s2 (i_user_id c))) cs"
    by simp
  have t: "same_tables s s2"
    using t1 t2 by (rule same_tables_trans)
  have su: "stored_user s2 = stored_user s"
    using same_tables_stored [OF t] by simp
  have ia: "interactions s1 = interactions s"
    using t1 by (simp add: same_tables_def)
  from fin have "gc_comments r = sort_key ce_created_at xs"
    by (auto simp: Let_def op_return_def)
  then show ?thesis
    by (simp only: xs cs su ia)
qed

text \<open>
  Claim C6.  Whatever the store, the limit and the failures of the store, the list that
  \<^verbatim>\<open>get_post_comments\<close> returns is the list of the comments the query reads on the
  store, each joined with the stored user of the comment and left out when the user is
  not stored, sorted by \<^verbatim>\<open>created_at\<close> with the stable sort; so it is in non-decreasing
  order of \<^verbatim>\<open>created_at\<close>.  And it does return a list for an existing post when the
  store answers and the limit is at least 1.
\<close>

theorem get_post_comments_sorted:
  "(\<forall>r s'. get_post_comments post_id limit s = (Inr r, s') \<longrightarrow>
       gc_comments r =
           sort_key ce_created_at
             (List.map_filter
                (\<lambda>c. map_option
                        (\<lambda>u. \<lparr>ce_interaction_id = i_interaction_id c,
                              ce_user_id = u_user_id u,
                              ce_username = u_username u,
                              ce_profile_image = u_profile_image u,
                              ce_content = i_content c,
                              ce_created_at = i_created_at c\<rparr>)
                        (stored_user s (i_user_id c)))
                (query_items (interactions s) post_id None (Some ''comment'') limit))
       \<and> sorted (map ce_created_at (gc_comments r)))
   \<and> (faults s = [] \<and> stored_post s post_id \<noteq> None \<and> 1 \<le> limit \<longrightarrow>
        (\<exists>r. get_post_comments post_id limit s = (Inr r, s)))"
proof (intro conjI allI impI)
  fix r s'
  assume a: "get_post_comments post_id limit s = (Inr r, s')"
  then show "gc_comments r =
           sort_key ce_created_at
             (List.map_filter
                (\<lambda>c. map_option
                        (\<lambda>u. \<lparr>ce_interaction_id = i_interaction_id c,
                              ce_user_id = u_user_id u,
                              ce_username = u_username u,
                              ce_profile_image = u_profile_image u,
                              ce_content = i_content c,
                              ce_created_at = i_created_at c\<rparr>)
                        (stored_user s (i_user_id c)))
                (query_items (interactions s) post_id None (Some ''comment'') limit))"
    by (rule get_post_comments_returned)
  then show "sorted (map ce_created_at (gc_comments r))"
    by simp
next
  assume "faults s = [] \<and> stored_post s post_id \<noteq> None \<and> 1 \<le> limit"
  then show "\<exists>r. get_post_comments post_id limit s = (Inr r, s)"
    using get_post_comments_nofault by auto
qed

theorem get_post_comments_sorted_witness:
  "faults two_comments_store = []
   \<and> stored_post two_comments_store ''p1'' \<noteq> None
   \<and> map i_created_at (query_items (interactions two_comments_store) ''p1'' None
                         (Some ''comment'') 50)
       = [''2024-05-02T08:00:02'', ''2024-05-02T08:00:01'']
   \<and> (\<exists>r. get_post_comments ''p1'' 50 two_comments_store = (Inr r, two_comments_store)
          \<and> gc_comments r =
              [\<lparr>ce_interaction_id = ''comment#u2#2024-05-02T08:00:01'', ce_user_id = ''u2'',
                ce_username = ''bob'', ce_profile_image = None,
                ce_content = Some ''First comment'',
                ce_created_at = ''2024-05-02T08:00:01''\<rparr>,
               \<lparr>ce_interaction_id = ''comment#u1#2024-05-02T08:00:02'', ce_user_id = ''u1'',
                ce_username = ''alice'', ce_profile_image = Some ''alice.jpg'',
                ce_content = Some ''Second comment'',
                ce_created_at = ''2024-05-02T08:00:02''\<rparr>]
          \<and> sorted (map ce_created_at (gc_comments r)))"
proof -
  have f: "faults two_comments_store = []"
    by code_simp
  have p: "stored_post two_comments_store ''p1'' \<noteq> None"
    by code_simp
  have q: "map i_created_at (query_items (interactions two_comments_store) ''p1'' None
                         (Some ''comment'') 50)
       = [''2024-05-02T08:00:02'', ''2024-05-02T08:00:01'']"
    by code_simp
  have j: "sort_key ce_created_at
             (List.map_filter
                (\<lambda>c. map_option
                        (\<lambda>u. \<lparr>ce_interaction_id = i_interaction_id c,
                              ce_user_id = u_user_id u,
                              ce_username = u_username u,
                              ce_profile_image = u_profile_image u,
                              ce_content = i_content c,
                              ce_created_at = i_created_at c\<rparr>)
                        (stored_user two_comments_store (i_user_id c)))
                (query_items (interactions two_comments_store) ''p1'' None
                   (Some ''comment'') 50))
           = [\<lparr>ce_interaction_id = ''comment#u2#2024-05-02T08:00:01'', ce_user_id = ''u2'',
                ce_username = ''bob'', ce_profile_image = None,
                ce_content = Some ''First comment'',
                ce_created_at = ''2024-05-02T08:00:01''\<rparr>,
               \<lparr>ce_interaction_id = ''comment#u1#2024-05-02T08:00:02'', ce_user_id = ''u1'',
                ce_username = ''alice'', ce_profile_image = Some ''alice.jpg'',
                ce_content = Some ''Second comment'',
                ce_created_at = ''2024-05-02T08:00:02''\<rparr>]"
    by code_simp
  note t = get_post_comments_sorted [of "''p1''" 50 two_comments_store]
  from t f p obtain r where
    r: "get_post_comments ''p1'' 50 two_comments_store = (Inr r, two_comments_store)"
    by auto
  with t have g: "gc_comments r = sort_key ce_created_at
             (List.map_filter
                (\<lambda>c. map_option
                        (\<lambda>u. \<lparr>ce_interaction_id = i_interaction_id c,
                              ce_user_id = u_user_id u,
                              ce_username = u_username u,
                              ce_profile_image = u_profile_image u,
                              ce_content = i_content c,
                              ce_created_at = i_created_at c\<rparr>)
                        (stored_user two_comments_store (i_user_id c)))
                (query_items (interactions two_comments_store) ''p1'' None
                   (Some ''comment'') 50))"
    and srt: "sorted (map ce_created_at (gc_comments r))"
    by blast+
  from g have c: "gc_comments r = [\<lparr>ce_interaction_id = ''comment#u2#2024-05-02T08:00:01'', ce_user_id = ''u2'',
                ce_username = ''bob'', ce_profile_image = None,
                ce_content = Some ''First comment'',
                ce_created_at = ''2024-05-02T08:00:01''\<rparr>,
               \<lparr>ce_interaction_id = ''comment#u1#2024-05-02T08:00:02'', ce_user_id = ''u1'',
                ce_username = ''alice'', ce_profile_image = Some ''alice.jpg'',
                ce_content = Some ''Second comment'',
                ce_created_at = ''2024-05-02T08:00:02''\<rparr>]"
    by (simp only: j)
  show ?thesis
    using f p q r srt c by - (intro conjI exI [of _ r], assumption+)
qed

subsection \<open>Deleting a comment\<close>

lemma set_query_items:
  "set (query_items tbl post_id None (Some t) limit)
     \<subseteq> {i \<in> set tbl. i_post_id i = post_id \<and> i_interaction_type i = t}"
proof -
  have "set (take n xs) \<subseteq> set xs" for n and xs :: "interaction list"
    by (rule set_take_subset)
  then show ?thesis
    by (auto simp: query_items_def key_matches_def dest!: in_set_takeD)
qed

lemma delete_comment_nofault:
  assumes nf: "faults s = []"
  shows "delete_comment user_id post_id interaction_id s =
    (case find (\<lambda>c. i_interaction_id c = interaction_id)
            (query_items (interactions s) post_id None (Some ''comment'') 50) of
       None \<Rightarrow> (Inl (NotFoundError CommentNotFound), s)
     | Some comment \<Rightarrow>
         if i_user_id comment \<noteq> user_id then (Inl (ValidationError OwnCommentsOnly), s)
         else
           (case stored_post s post_id of
              Some post \<Rightarrow>
                (Inr \<lparr>dc_message = CommentDeleted,
                      dc_comments_count = p_comments_count post + (- 1)\<rparr>,
                 s\<lparr>interactions :=
                     filter (\<lambda>i. \<not> (i_post_id i = i_post_id comment
                                      \<and> i_interaction_id i = i_interaction_id comment))
                       (interactions s),
                   posts := map (\<lambda>p. if p_post_id p = post_id
                                       then p\<lparr>p_likes_count := p_likes_count p + 0,
                                              p_comments_count := p_comments_count p + (- 1)\<rparr>
                                       else p) (posts s)\<rparr>)
            | None \<Rightarrow>
                (Inr \<lparr>dc_message = CommentDeleted, dc_comments_count = 0\<rparr>,
                 s\<lparr>interactions :=
                     filter (\<lambda>i. \<not> (i_post_id i = i_post_id comment
                                      \<and> i_interaction_id i = i_interaction_id comment))
                       (interactions s)\<rparr>)))"
proof -
  have del: "Interaction_delete c s =
      (Inr True, s\<lparr>interactions :=
                     filter (\<lambda>i. \<not> (i_post_id i = i_post_id c
                                      \<and> i_interaction_id i = i_interaction_id c))
                       (interactions s)\<rparr>)" for c
    by (simp add: Interaction_delete_def op_bind_def op_return_def
        interactions_delete_item_nofault [OF nf])
  have pid: "stored_post s post_id = Some post \<Longrightarrow> p_post_id post = post_id" for post
    by (rule stored_post_id)
  have sp: "stored_post (s\<lparr>interactions := xs\<rparr>) post_id = stored_post s post_id" for xs
    by (simp add: stored_post_def)
  show ?thesis
    by (simp add: delete_comment_def op_bind_def op_return_def op_raise_def
        Interaction_get_post_interactions_nofault [OF nf] del
        Post_get_by_id_nofault nf sp Post_update_counts_nofault pid
        split: option.split)
qed

text \<open>
  What \<^verbatim>\<open>delete_comment\<close> does when the store answers: an id that no comment of the post
  has raises \<^verbatim>\<open>NotFoundError\<close>; a comment found among the items read raises
  \<^verbatim>\<open>ValidationError\<close> for a caller who is not its author, and is deleted for its author,
  with the count of an existing post moved down by one and returned.
\<close>

lemma delete_comment_missing:
  assumes nf: "faults s = []"
    and none: "\<forall>i \<in> set (interactions s).
                 \<not> (i_post_id i = post_id \<and> i_interaction_type i = ''comment''
                      \<and> i_interaction_id i = interaction_id)"
  shows "delete_comment user_id post_id interaction_id s
           = (Inl (NotFoundError CommentNotFound), s)"
proof -
  have "find (\<lambda>c. i_interaction_id c = interaction_id)
          (query_items (interactions s) post_id None (Some ''comment'') 50) = None"
    using none set_query_items [of "interactions s" post_id "''comment''" 50]
    by (auto simp: find_None_iff)
  then show ?thesis
    by (simp add: delete_comment_nofault [OF nf])
qed

lemma delete_comment_not_author:
  assumes nf: "faults s = []"
    and found: "find (\<lambda>c. i_interaction_id c = interaction_id)
            (query_items (interactions s) post_id None (Some ''comment'') 50) = Some comment"
    and other: "i_user_id comment \<noteq> user_id"
  shows "delete_comment user_id post_id interaction_id s
           = (Inl (ValidationError OwnCommentsOnly), s)"
  using other by (simp add: delete_comment_nofault [OF nf] found)

lemma delete_comment_by_author:
  assumes nf: "faults s = []"
    and found: "find (\<lambda>c. i_interaction_id c = interaction_id)
            (query_items (interactions s) post_id None (Some ''comment'') 50) = Some comment"
    and own: "i_user_id comment = user_id"
    and post: "stored_post s post_id = Some post"
  shows "\<exists>s'. delete_comment user_id post_id interaction_id s
           = (Inr \<lparr>dc_message = CommentDeleted,
                   dc_comments_count = p_comments_count post - 1\<rparr>, s')
         \<and> interactions s' =
             filter (\<lambda>i. \<not> (i_post_id i = post_id \<and> i_interaction_id i = interaction_id))
               (interactions s)
         \<and> stored_post s' post_id
             = Some (post\<lparr>p_comments_count := p_comments_count post - 1\<rparr>)"
proof -
  from found have "comment \<in> set (query_items (interactions s) post_id None (Some ''comment'') 50)"
    and cid: "i_interaction_id comment = interaction_id"
    by (auto simp: find_Some_iff)
  then have cp: "i_post_id comment = post_id"
    using set_query_items [of "interactions s" post_id "''comment''" 50] by auto
  let ?s' = "s\<lparr>interactions :=
                     filter (\<lambda>i. \<not> (i_post_id i = i_post_id comment
                                      \<and> i_interaction_id i = i_interaction_id comment))
                       (interactions s),
                   posts := map (\<lambda>p. if p_post_id p = post_id
                                       then p\<lparr>p_likes_count := p_likes_count p + 0,
                                              p_comments_count := p_comments_count p + (- 1)\<rparr>
                                       else p) (posts s)\<rparr>"
  have v: "delete_comment user_id post_id interaction_id s
           = (Inr \<lparr>dc_message = CommentDeleted,
                   dc_comments_count = p_comments_count post - 1\<rparr>, ?s')"
    using own by (simp add: delete_comment_nofault [OF nf] found post)
  have i': "interactions ?s' =
             filter (\<lambda>i. \<not> (i_post_id i = post_id \<and> i_interaction_id i = interaction_id))
               (interactions s)"
    by (simp add: cp cid)
  have "stored_post ?s' post_id =
          map_option (\<lambda>p. if p_post_id p = post_id
                                       then p\<lparr>p_likes_count := p_likes_count p + 0,
                                              p_comments_count := p_comments_count p + (- 1)\<rparr>
                                       else p) (stored_post s post_id)"
    by (rule stored_post_bumped) simp
  then have p': "stored_post ?s' post_id
             = Some (post\<lparr>p_comments_count := p_comments_count post - 1\<rparr>)"
    using stored_post_id [OF post] by (simp add: post)
  from v i' p' show ?thesis
    by blast
qed

text \<open>
  Claim C3 at a failing input.  The 51st comment of the crowded store is a comment of
  user \<^verbatim>\<open>u1\<close> on the post; \<^verbatim>\<open>delete_comment\<close> called by another user with its id raises
  \<^verbatim>\<open>NotFoundError\<close>, not \<^verbatim>\<open>ValidationError\<close>: the comment is not among the 50 items the
  query reads.
\<close>

theorem delete_comment_other_user_beyond_limit:
  "faults crowded_store = []
   \<and> nth_comment 50 \<in> set (interactions crowded_store)
   \<and> i_post_id (nth_comment 50) = ''p1''
   \<and> i_interaction_type (nth_comment 50) = ''comment''
   \<and> i_interaction_id (nth_comment 50) = ''comment#u1#2024-05-02T08:00:50''
   \<and> i_user_id (nth_comment 50) = ''u1''
   \<and> delete_comment ''u2'' ''p1'' ''comment#u1#2024-05-02T08:00:50'' crowded_store
        = (Inl (NotFoundError CommentNotFound), crowded_store)"
  by code_simp

text \<open>
  Claim C8 at a failing input.  Called by its author, \<^verbatim>\<open>delete_comment\<close> with the id of
  the same comment raises \<^verbatim>\<open>NotFoundError\<close> and leaves the comment and the count.
\<close>

theorem delete_comment_author_beyond_limit:
  "faults crowded_store = []
   \<and> nth_comment 50 \<in> set (interactions crowded_store)
   \<and> i_post_id (nth_comment 50) = ''p1''
   \<and> i_interaction_type (nth_comment 50) = ''comment''
   \<and> i_interaction_id (nth_comment 50) = ''comment#u1#2024-05-02T08:00:50''
   \<and> i_user_id (nth_comment 50) = ''u1''
   \<and> stored_post crowded_store ''p1'' = Some (photo\<lparr>p_comments_count := 51\<rparr>)
   \<and> delete_comment ''u1'' ''p1'' ''comment#u1#2024-05-02T08:00:50'' crowded_store
        = (Inl (NotFoundError CommentNotFound), crowded_store)"
  by code_simp

subsection \<open>The like status of a user\<close>

lemma store_call_fault:
  "faults s = True # fs \<Longrightarrow> store_call s = (Inl StoreFailure, s\<lparr>faults := fs\<rparr>)"
  by (simp add: store_call_def)

lemma get_user_like_status_value:
  "\<exists>b s'. get_user_like_status user_id post_id s = (Inr b, s')"
  by (auto simp: get_user_like_status_def op_catch_def op_bind_def op_return_def
      split: prod.splits sum.splits)

lemma get_user_like_status_caught:
  "fst (Interaction_get_user_like post_id user_id s) = Inl e \<Longrightarrow>
   fst (get_user_like_status user_id post_id s) = Inr False"
  by (auto simp: get_user_like_status_def op_catch_def op_bind_def op_return_def
      split: prod.splits sum.splits)

lemma Interaction_get_user_like_fault:
  "faults s = True # fs \<Longrightarrow>
   fst (Interaction_get_user_like post_id user_id s) = Inl StoreFailure"
  by (simp add: Interaction_get_user_like_def interactions_query_def op_bind_def
      store_call_fault)

lemma toggle_like_fault:
  "faults s = True # fs \<Longrightarrow> fst (toggle_like user_id post_id now s) = Inl StoreFailure"
  by (simp add: toggle_like_def Post_get_by_id_def posts_get_item_def op_bind_def
      store_call_fault)

lemma delete_comment_fault:
  "faults s = True # fs \<Longrightarrow>
   fst (delete_comment user_id post_id interaction_id s) = Inl StoreFailure"
  by (simp add: delete_comment_def Interaction_get_post_interactions_def
      interactions_query_def op_bind_def store_call_fault)

lemma add_comment_fault:
  "faults s = True # fs \<Longrightarrow> strip content \<noteq> [] \<Longrightarrow> length (strip content) \<le> 500 \<Longrightarrow>
   fst (add_comment user_id post_id content now s) = Inl StoreFailure"
  by (auto simp: add_comment_def Let_def Post_get_by_id_def posts_get_item_def op_bind_def
      store_call_fault strip_def)

lemma no_call_failed_iff:
  "no_call_failed s s' \<longleftrightarrow>
     (\<exists>n. faults s' = drop n (faults s) \<and> True \<notin> set (take n (faults s)))"
proof
  assume "no_call_failed s s'"
  then show "\<exists>n. faults s' = drop n (faults s) \<and> True \<notin> set (take n (faults s))"
    unfolding no_call_failed_def Let_def by blast
next
  assume "\<exists>n. faults s' = drop n (faults s) \<and> True \<notin> set (take n (faults s))"
  then obtain n where n: "faults s' = drop n (faults s)" "True \<notin> set (take n (faults s))"
    by blast
  let ?m = "length (faults s) - length (faults s')"
  have "?m = min n (length (faults s))"
    using n(1) by simp
  then have "drop ?m (faults s) = drop n (faults s)" "take ?m (faults s) = take n (faults s)"
    by (simp_all add: min_def)
  then show "no_call_failed s s'"
    unfolding no_call_failed_def Let_def using n by simp
qed

lemma no_call_failed_refl: "faults s' = faults s \<Longrightarrow> no_call_failed s s'"
  by (simp add: no_call_failed_def)

lemma no_call_failed_trans:
  assumes "no_call_failed s s1" "no_call_failed s1 s2"
  shows "no_call_failed s s2"
proof -
  from assms obtain n m where
    n: "faults s1 = drop n (faults s)" "True \<notin> set (take n (faults s))"
    and m: "faults s2 = drop m (faults s1)" "True \<notin> set (take m (faults s1))"
    unfolding no_call_failed_iff by blast
  have "faults s2 = drop (n + m) (faults s)"
    using n(1) m(1) by (simp add: add.commute)
  moreover have "take (n + m) (faults s) = take n (faults s) @ take m (drop n (faults s))"
    by (rule take_add)
  then have "True \<notin> set (take (n + m) (faults s))"
    using n m(2) by simp
  ultimately show ?thesis
    unfolding no_call_failed_iff by blast
qed

lemma propagates_return: "propagates (op_return x)"
  by (simp add: propagates_def op_return_def no_call_failed_refl)

lemma propagates_raise: "propagates (op_raise e)"
  by (simp add: propagates_def op_raise_def)

lemma propagates_bind:
  assumes "propagates m" "\<And>x. propagates (f x)"
  shows "propagates (op_bind m f)"
  unfolding propagates_def
proof (intro allI impI)
  fix s y s2
  assume b: "op_bind m f s = (Inr y, s2)"
  then obtain x s1 where m: "m s = (Inr x, s1)" and f: "f x s1 = (Inr y, s2)"
    by (auto simp: op_bind_def split: prod.splits sum.splits)
  from assms(1) m have "no_call_failed s s1"
    by (simp add: propagates_def)
  moreover from assms(2) f have "no_call_failed s1 s2"
    by (simp add: propagates_def)
  ultimately show "no_call_failed s s2"
    by (rule no_call_failed_trans)
qed

lemma propagates_store_call: "propagates store_call"
  unfolding propagates_def
proof (intro allI impI)
  fix s x s'
  assume c: "store_call s = (Inr x, s')"
  show "no_call_failed s s'"
  proof (cases "faults s")
    case Nil
    then show ?thesis
      using c by (simp add: store_call_def no_call_failed_refl)
  next
    case (Cons f fs)
    then have "\<not> f" "faults s' = fs"
      using c by (auto simp: store_call_def split: if_splits)
    then show ?thesis
      using Cons by (simp add: no_call_failed_def)
  qed
qed

lemma propagates_pure:
  "(\<And>s. faults (g s) = faults s) \<Longrightarrow> propagates (\<lambda>s. (Inr (h s), g s))"
  by (simp add: propagates_def no_call_failed_refl)

lemma propagates_users_get_item: "propagates (users_get_item k)"
  unfolding users_get_item_def
  by (intro propagates_bind propagates_store_call propagates_pure) simp

lemma propagates_posts_get_item: "propagates (posts_get_item k)"
  unfolding posts_get_item_def
  by (intro propagates_bind propagates_store_call propagates_pure) simp

lemma propagates_posts_update_item_add: "propagates (posts_update_item_add k a b)"
  unfolding posts_update_item_add_def
  by (intro propagates_bind propagates_store_call propagates_pure) simp

lemma propagates_interactions_put_item: "propagates (interactions_put_item i)"
  unfolding interactions_put_item_def
  by (intro propagates_bind propagates_store_call propagates_pure) simp

lemma propagates_interactions_delete_item: "propagates (interactions_delete_item p k)"
  unfolding interactions_delete_item_def
  by (intro propagates_bind propagates_store_call propagates_pure) simp

lemma propagates_interactions_query: "propagates (interactions_query p pre flt limit)"
proof (cases "limit < 1")
  case True
  then show ?thesis
    unfolding interactions_query_def
    by (intro propagates_bind propagates_store_call) (simp add: propagates_raise)
next
  case False
  then show ?thesis
    unfolding interactions_query_def
    by (intro propagates_bind propagates_store_call) (simp add: propagates_pure)
qed

lemma propagates_option:
  "propagates a \<Longrightarrow> (\<And>y. propagates (b y)) \<Longrightarrow>
   propagates (case x of None \<Rightarrow> a | Some y \<Rightarrow> b y)"
  by (cases x) simp_all

lemma propagates_if:
  "propagates a \<Longrightarrow> propagates b \<Longrightarrow> propagates (if c then a else b)"
  by simp

lemmas propagates_intros =
  propagates_bind propagates_return propagates_raise propagates_option propagates_if
  propagates_users_get_item propagates_posts_get_item propagates_posts_update_item_add
  propagates_interactions_put_item propagates_interactions_delete_item
  propagates_interactions_query

lemma propagates_toggle_like: "propagates (toggle_like user_id post_id now)"
  unfolding toggle_like_def Post_get_by_id_def Interaction_get_user_like_def
    Interaction_delete_like_def Post_update_counts_def Interaction_save_def
  by (intro propagates_intros)

lemma propagates_add_comment: "propagates (add_comment user_id post_id content now)"
  unfolding add_comment_def Let_def Post_get_by_id_def User_get_by_id_def
    Post_update_counts_def Interaction_save_def
  by (intro propagates_intros)

lemma propagates_delete_comment: "propagates (delete_comment user_id post_id interaction_id)"
  unfolding delete_comment_def Interaction_get_post_interactions_def Interaction_delete_def
    Post_get_by_id_def Post_update_counts_def
  by (intro propagates_intros)

lemma not_propagates_get_user_like_status:
  "\<not> propagates (get_user_like_status user_id post_id)"
proof
  assume p: "propagates (get_user_like_status user_id post_id)"
  have "get_user_like_status user_id post_id failing_store
          = (Inr False, failing_store\<lparr>faults := []\<rparr>)"
    by (simp add: get_user_like_status_def op_catch_def op_bind_def op_return_def
        Interaction_get_user_like_def interactions_query_def store_call_def failing_store_def)
  with p have "no_call_failed failing_store (failing_store\<lparr>faults := []\<rparr>)"
    unfolding propagates_def by blast
  then show False
    by (simp add: no_call_failed_def failing_store_def)
qed

text \<open>
  Claim C10.  \<^verbatim>\<open>get_user_like_status\<close> returns a boolean on every store, whatever calls
  fail; when its lookup ends with an exception the answer is \<^verbatim>\<open>False\<close>, so it does not
  propagate the failures of the store.  \<^verbatim>\<open>toggle_like\<close>, \<^verbatim>\<open>add_comment\<close> and
  \<^verbatim>\<open>delete_comment\<close> do: they return a value only if none of their store calls failed.
  In particular, when the next store call fails, the lookup raises and the status is
  \<^verbatim>\<open>False\<close>, while \<^verbatim>\<open>toggle_like\<close>, \<^verbatim>\<open>delete_comment\<close> and \<^verbatim>\<open>add_comment\<close> (with content
  that passes the checks) end with the failure.
\<close>

theorem get_user_like_status_never_raises:
  "(\<exists>b s'. get_user_like_status user_id post_id s = (Inr b, s'))
   \<and> (\<forall>e. fst (Interaction_get_user_like post_id user_id s) = Inl e \<longrightarrow>
          fst (get_user_like_status user_id post_id s) = Inr False)
   \<and> \<not> propagates (get_user_like_status user_id post_id)
   \<and> propagates (toggle_like user_id post_id now)
   \<and> propagates (add_comment user_id post_id content now)
   \<and> propagates (delete_comment user_id post_id interaction_id)
   \<and> (\<forall>fs. faults s = True # fs \<longrightarrow>
          fst (Interaction_get_user_like post_id user_id s) = Inl StoreFailure
          \<and> fst (get_user_like_status user_id post_id s) = Inr False
          \<and> fst (toggle_like user_id post_id now s) = Inl StoreFailure
          \<and> fst (delete_comment user_id post_id interaction_id s) = Inl StoreFailure
          \<and> (strip content \<noteq> [] \<and> length (strip content) \<le> 500 \<longrightarrow>
               fst (add_comment user_id post_id content now s) = Inl StoreFailure))"
  using get_user_like_status_value [of user_id post_id s]
    get_user_like_status_caught [of post_id user_id s]
    Interaction_get_user_like_fault [of s _ post_id user_id]
    toggle_like_fault [of s _ user_id post_id now]
    delete_comment_fault [of s _ user_id post_id interaction_id]
    add_comment_fault [of s _ content user_id post_id now]
    not_propagates_get_user_like_status [of user_id post_id]
    propagates_toggle_like [of user_id post_id now]
    propagates_add_comment [of user_id post_id content now]
    propagates_delete_comment [of user_id post_id interaction_id]
  by (intro conjI allI impI) blast+

theorem get_user_like_status_never_raises_witness:
  "faults failing_store = [True]
   \<and> strip ''hello'' = ''hello''
   \<and> fst (Interaction_get_user_like ''p1'' ''u1'' failing_store) = Inl StoreFailure
   \<and> fst (get_user_like_status ''u1'' ''p1'' failing_store) = Inr False
   \<and> fst (toggle_like ''u1'' ''p1'' ''2024-05-02T08:00:00'' failing_store) = Inl StoreFailure
   \<and> fst (delete_comment ''u1'' ''p1'' ''comment#u1#2024-05-02T08:00:00'' failing_store)
        = Inl StoreFailure
   \<and> fst (add_comment ''u1'' ''p1'' ''hello'' ''2024-05-02T08:00:00'' failing_store)
        = Inl StoreFailure
   \<and> (\<exists>b s'. get_user_like_status ''u1'' ''p1'' small_store = (Inr b, s'))
   \<and> fst (toggle_like ''u1'' ''p1'' ''2024-05-02T08:00:00''
             (small_store\<lparr>faults := [False, False, True]\<rparr>)) = Inl StoreFailure
   \<and> \<not> no_call_failed (small_store\<lparr>faults := [False, False, True]\<rparr>)
         (snd (toggle_like ''u1'' ''p1'' ''2024-05-02T08:00:00''
                (small_store\<lparr>faults := [False, False, True]\<rparr>)))"
proof -
  have f: "faults failing_store = [True]"
    by (simp add: failing_store_def)
  have st: "strip ''hello'' = ''hello''"
    by (simp add: strip_def isspace_def)
  let ?s = "small_store\<lparr>faults := [False, False, True]\<rparr>"
  have t: "toggle_like ''u1'' ''p1'' ''2024-05-02T08:00:00'' ?s
             = (Inl StoreFailure, small_store)"
    by code_simp
  have "\<not> no_call_failed ?s small_store"
    by (simp add: no_call_failed_def small_store_def)
  then show ?thesis
    using f st t
      get_user_like_status_never_raises [of "''u1''" "''p1''" failing_store
        "''2024-05-02T08:00:00''" "''hello''" "''comment#u1#2024-05-02T08:00:00''"]
      get_user_like_status_never_raises [of "''u1''" "''p1''" small_store]
    by simp
qed

subsection \<open>Reading the likes of a post\<close>

text \<open>
  What \<^verbatim>\<open>get_post_likes\<close> returns for an existing post, a limit of at least 1 and a
  store that answers: the likes among the items the query reads, each joined with the
  stored user of the like (\<^verbatim>\<open>user_id\<close>, \<^verbatim>\<open>username\<close>, \<^verbatim>\<open>profile_image\<close>) and left out when
  the user is not stored, so that every entry comes from a stored like of the post; the
  length of that list as \<^verbatim>\<open>likes_count\<close>; and, apart from it, the \<^verbatim>\<open>likes_count\<close> of the
  post item as \<^verbatim>\<open>total_likes\<close>.  The two numbers can differ.
\<close>

lemma get_post_likes_nofault:
  assumes nf: "faults s = []"
    and post: "stored_post s post_id = Some post"
    and lim: "1 \<le> limit"
  shows "(\<exists>r. get_post_likes post_id limit s = (Inr r, s)
            \<and> gl_total_likes r = p_likes_count post
            \<and> gl_likes_count r = length (gl_likes r)
            \<and> gl_likes r =
                List.map_filter
                  (\<lambda>l. map_option
                          (\<lambda>u. \<lparr>le_user_id = u_user_id u,
                                le_username = u_username u,
                                le_profile_image = u_profile_image u,
                                le_created_at = i_created_at l\<rparr>)
                          (stored_user s (i_user_id l)))
                  (query_items (interactions s) post_id None (Some ''like'') limit)
            \<and> (\<forall>e \<in> set (gl_likes r).
                  \<exists>l \<in> set (interactions s). \<exists>u.
                    i_post_id l = post_id \<and> i_interaction_type l = ''like''
                    \<and> stored_user s (i_user_id l) = Some u
                    \<and> e = \<lparr>le_user_id = u_user_id u,
                            le_username = u_username u,
                            le_profile_image = u_profile_image u,
                            le_created_at = i_created_at l\<rparr>))
       \<and> (\<exists>s0 p0 r0. faults s0 = [] \<and> stored_post s0 p0 \<noteq> None
             \<and> get_post_likes p0 50 s0 = (Inr r0, s0)
             \<and> int (gl_likes_count r0) \<noteq> gl_total_likes r0)"
proof (intro conjI)
  let ?join = "\<lambda>l. map_option
                          (\<lambda>u. \<lparr>le_user_id = u_user_id u,
                                le_username = u_username u,
                                le_profile_image = u_profile_image u,
                                le_created_at = i_created_at l\<rparr>)
                          (stored_user s (i_user_id l))"
  let ?likes = "query_items (interactions s) post_id None (Some ''like'') limit"
  let ?r = "\<lparr>gl_likes = List.map_filter ?join ?likes,
             gl_likes_count = length (List.map_filter ?join ?likes),
             gl_total_likes = p_likes_count post\<rparr>"
  have v: "get_post_likes post_id limit s = (Inr ?r, s)"
    by (simp add: get_post_likes_def op_bind_def op_return_def
        Post_get_by_id_nofault [OF nf] post
        Interaction_get_post_interactions_nofault [OF nf lim]
        likes_with_users_nofault [OF nf])
  have sound: "\<exists>l \<in> set (interactions s). \<exists>u.
                    i_post_id l = post_id \<and> i_interaction_type l = ''like''
                    \<and> stored_user s (i_user_id l) = Some u
                    \<and> e = \<lparr>le_user_id = u_user_id u,
                            le_username = u_username u,
                            le_profile_image = u_profile_image u,
                            le_created_at = i_created_at l\<rparr>"
    if "e \<in> set (gl_likes ?r)" for e
  proof -
    from that obtain l where l: "l \<in> set ?likes" and j: "?join l = Some e"
      by (auto simp: List.map_filter_def)
    from l have "l \<in> set (interactions s)" "i_post_id l = post_id"
      "i_interaction_type l = ''like''"
      using set_query_items [of "interactions s" post_id "''like''" limit] by auto
    then show ?thesis
      using j by auto
  qed
  show "\<exists>r. get_post_likes post_id limit s = (Inr r, s)
            \<and> gl_total_likes r = p_likes_count post
            \<and> gl_likes_count r = length (gl_likes r)
            \<and> gl_likes r = List.map_filter ?join ?likes
            \<and> (\<forall>e \<in> set (gl_likes r).
                  \<exists>l \<in> set (interactions s). \<exists>u.
                    i_post_id l = post_id \<and> i_interaction_type l = ''like''
                    \<and> stored_user s (i_user_id l) = Some u
                    \<and> e = \<lparr>le_user_id = u_user_id u,
                            le_username = u_username u,
                            le_profile_image = u_profile_image u,
                            le_created_at = i_created_at l\<rparr>)"
    using v sound by (intro exI [of _ ?r]) simp
next
  have "faults ghost_like_store = []" "stored_post ghost_like_store ''p1'' \<noteq> None"
    by code_simp+
  moreover have "get_post_likes ''p1'' 50 ghost_like_store =
      (Inr \<lparr>gl_likes = [], gl_likes_count = 0, gl_total_likes = 1\<rparr>, ghost_like_store)"
    by code_simp
  ultimately show "\<exists>s0 p0 r0. faults s0 = [] \<and> stored_post s0 p0 \<noteq> None
             \<and> get_post_likes p0 50 s0 = (Inr r0, s0)
             \<and> int (gl_likes_count r0) \<noteq> gl_total_likes r0"
    by (intro exI [of _ ghost_like_store] exI [of _ "''p1''"]
        exI [of _ "\<lparr>gl_likes = [], gl_likes_count = 0, gl_total_likes = 1\<rparr>"]) simp
qed

text \<open>
  Claim C9 at a failing input.  In the store of the 51 comments the first user likes the
  post: the like is stored, the user has a record and the count of the post is 1.
  \<^verbatim>\<open>get_post_likes\<close> with the limit 50 returns \<^verbatim>\<open>total_likes = 1\<close> and an empty list of
  likes.  The ids of the comments come before the id of the like in key order, the
  query reads the first 50 items of the post and filters them by type afterwards, and
  the result is not paged; with the limit 52 the like is returned.
\<close>

theorem get_post_likes_beyond_limit:
  "toggle_like ''u1'' ''p1'' ''2024-05-02T08:01:00'' crowded_store
     = (Inr \<lparr>tl_liked = True, tl_likes_count = 1, tl_message = LikeAdded\<rparr>,
        crowded_liked_store)
   \<and> faults crowded_liked_store = []
   \<and> stored_post crowded_liked_store ''p1''
       = Some (photo\<lparr>p_likes_count := 1, p_comments_count := 51\<rparr>)
   \<and> filter (\<lambda>i. i_post_id i = ''p1'' \<and> i_interaction_type i = ''like'')
        (interactions crowded_liked_store)
       = [\<lparr>i_post_id = ''p1'',
           i_interaction_id = ''like#u1#2024-05-02T08:01:00'',
           i_user_id = ''u1'',
           i_interaction_type = ''like'',
           i_content = None,
           i_created_at = ''2024-05-02T08:01:00''\<rparr>]
   \<and> stored_user crowded_liked_store ''u1'' = Some alice
   \<and> get_user_like_status ''u1'' ''p1'' crowded_liked_store = (Inr True, crowded_liked_store)
   \<and> get_post_likes ''p1'' 50 crowded_liked_store
       = (Inr \<lparr>gl_likes = [], gl_likes_count = 0, gl_total_likes = 1\<rparr>, crowded_liked_store)
   \<and> get_post_likes ''p1'' 52 crowded_liked_store
       = (Inr \<lparr>gl_likes = [\<lparr>le_user_id = ''u1'', le_username = ''alice'',
                              le_profile_image = Some ''alice.jpg'',
                              le_created_at = ''2024-05-02T08:01:00''\<rparr>],
               gl_likes_count = 1, gl_total_likes = 1\<rparr>, crowded_liked_store)"
  by code_simp

end
